theory Spec2Isabelle
  imports Complex_Main "HOL-Library.AList"
begin

section \<open>JavaScript values, strings and objects\<close>

text \<open>
  The asset engine of \<^verbatim>\<open>src/js/assets.js\<close> is embedded function by function.
  A JavaScript string is a \<open>string\<close>, one \<open>char\<close> per code unit (code units below 256).
  A JavaScript number is a \<open>rat\<close>: every number the modelled functions compute from
  their inputs (decimal integers, quarters of days, millisecond stamps) is exact there as
  long as it stays below \<open>2 ^ 53\<close>. An object whose properties are read by name is an
  association list from property names to values, in insertion order, as
  \<^verbatim>\<open>Object.entries\<close> enumerates it; a property holding \<^verbatim>\<open>undefined\<close> holds
  \<open>Undefined\<close>, and so does the read of an absent property. The arrays the engine
  keeps are arrays of URLs, lists of strings.
\<close>

datatype jsval =
  Undefined | Num rat | Str string | Bool bool | Arr "string list" | Obj "(string \<times> jsval) list"

type_synonym obj = "(string \<times> jsval) list"

definition objGet :: "obj \<Rightarrow> string \<Rightarrow> jsval" where
  "objGet ob k = (case map_of ob k of None \<Rightarrow> Undefined | Some v \<Rightarrow> v)"

definition objSet :: "obj \<Rightarrow> string \<Rightarrow> jsval \<Rightarrow> obj" where
  "objSet ob k v = AList.update k v ob"

definition objDelete :: "obj \<Rightarrow> string \<Rightarrow> obj" where
  "objDelete ob k = AList.delete k ob"

text \<open>Truthiness of a value, as \<^verbatim>\<open>if ( v )\<close> and \<^verbatim>\<open>v || w\<close> test it.\<close>

fun truthy :: "jsval \<Rightarrow> bool" where
  "truthy Undefined = False"
| "truthy (Num n) = (n \<noteq> 0)"
| "truthy (Str s) = (s \<noteq> [])"
| "truthy (Bool b) = b"
| "truthy (Arr xs) = True"
| "truthy (Obj ps) = True"

text \<open>
  The character classes of the regular expressions: \<^verbatim>\<open>\d\<close>, \<^verbatim>\<open>\s\<close> (the white space
  and line terminators below code 256: tab, line feed, vertical tab, form feed, carriage
  return, space, no-break space) and the line terminators \<^verbatim>\<open>\n\<close> and \<^verbatim>\<open>\r\<close> that
  \<^verbatim>\<open>.\<close> excludes and at which \<^verbatim>\<open>^\<close> and \<^verbatim>\<open>$\<close> match under the \<^verbatim>\<open>m\<close> flag.
\<close>

definition isDigit :: "char \<Rightarrow> bool" where
  "isDigit c \<longleftrightarrow> c \<in> set ''0123456789''"

definition isWhiteSpace :: "char \<Rightarrow> bool" where
  "isWhiteSpace c \<longleftrightarrow> (of_char c :: nat) \<in> {9, 10, 11, 12, 13, 32, 160}"

definition isLineTerminator :: "char \<Rightarrow> bool" where
  "isLineTerminator c \<longleftrightarrow> (of_char c :: nat) \<in> {10, 13}"

definition isLower :: "char \<Rightarrow> bool" where
  "isLower c \<longleftrightarrow> c \<in> set ''abcdefghijklmnopqrstuvwxyz''"

definition isUpper :: "char \<Rightarrow> bool" where
  "isUpper c \<longleftrightarrow> c \<in> set ''ABCDEFGHIJKLMNOPQRSTUVWXYZ''"

definition toUpper :: "char \<Rightarrow> char" where
  "toUpper c = (if isLower c then char_of (of_char c - (32::nat)) else c)"

definition toLower :: "char \<Rightarrow> char" where
  "toLower c = (if isUpper c then char_of (of_char c + (32::nat)) else c)"

text \<open>\<^verbatim>\<open>String.prototype.trim\<close>: white space is stripped from both ends.\<close>

definition trim :: "string \<Rightarrow> string" where
  "trim s = rev (dropWhile isWhiteSpace (rev (dropWhile isWhiteSpace s)))"

text \<open>\<^verbatim>\<open>parseInt(s, 10)\<close> on a string of decimal digits.\<close>

definition parseInt10 :: "string \<Rightarrow> nat" where
  "parseInt10 ds = foldl (\<lambda>a c. 10 * a + (of_char c - 48)) 0 ds"

section \<open>Metadata extractor\<close>

text \<open>
  \<^verbatim>\<open>s.match(/(\d+)\s*([dh])?/i)\<close>. The expression is not anchored, so the match starts
  at the first digit of \<open>s\<close>; \<^verbatim>\<open>\d+\<close> and \<^verbatim>\<open>\s*\<close> are greedy and everything after
  the digits may match the empty string, so the first attempt succeeds: group 1 is the
  whole run of digits, group 2 is the next character after the white space when it is one
  of \<open>d\<close>, \<open>h\<close>, \<open>D\<close>, \<open>H\<close> (flag \<^verbatim>\<open>i\<close>), kept in the case it was written in, and
  \<^verbatim>\<open>undefined\<close> (\<open>None\<close>) otherwise. No match (\<^verbatim>\<open>null\<close>) is \<open>None\<close>.
\<close>

definition matchExpires :: "string \<Rightarrow> (string \<times> char option) option" where
  "matchExpires s =
     (case dropWhile (\<lambda>c. \<not> isDigit c) s of
        [] \<Rightarrow> None
      | r \<Rightarrow> Some (takeWhile isDigit r,
                 (case dropWhile isWhiteSpace (dropWhile isDigit r) of
                    [] \<Rightarrow> None
                  | c # _ \<Rightarrow> if c \<in> set ''dhDH'' then Some c else None)))"

definition parseExpires :: "string \<Rightarrow> rat" where
  "parseExpires s =
     (case matchExpires s of
        None \<Rightarrow> 0
      | Some (ds, unit) \<Rightarrow>
          (let updateAfter = of_nat (parseInt10 ds) in
           if unit = Some CHR ''h'' then of_int \<lceil>updateAfter / 6\<rceil> / 4 else updateAfter))"

text \<open>
  The header expression of \<^verbatim>\<open>extractMetadataFromList\<close> is built from the field name:
  \<^verbatim>\<open>^(?:! *|# +)FIELD: *(.+)$\<close> with flags \<^verbatim>\<open>im\<close>, where every \<open>-\<close> of the field
  name has become \<^verbatim>\<open>(?: +|-)\<close>. A piece of the expression is modelled by the list of
  the inputs it can leave, in the order backtracking tries them (greedy: longest match
  first). The other characters of the field name are taken as literals, which is what
  they are for the names the engine passes (letters and hyphens).
\<close>

fun spacesStar :: "string \<Rightarrow> string list" where
  "spacesStar [] = [[]]"
| "spacesStar (c # r) = (if c = CHR '' '' then spacesStar r @ [c # r] else [c # r])"

fun spacesPlus :: "string \<Rightarrow> string list" where
  "spacesPlus [] = []"
| "spacesPlus (c # r) = (if c = CHR '' '' then spacesStar r else [])"

fun fieldPrefix :: "string \<Rightarrow> string list" where
  "fieldPrefix [] = []"
| "fieldPrefix (c # r) =
     (if c = CHR ''!'' then spacesStar r else if c = CHR ''#'' then spacesPlus r else [])"

fun matchFieldChar :: "char \<Rightarrow> string \<Rightarrow> string list" where
  "matchFieldChar f [] = []"
| "matchFieldChar f (c # r) =
     (if f = CHR ''-'' then spacesPlus (c # r) @ (if c = CHR ''-'' then [r] else [])
      else if toUpper c = toUpper f then [r] else [])"

fun matchFieldName :: "string \<Rightarrow> string \<Rightarrow> string list" where
  "matchFieldName [] s = [s]"
| "matchFieldName (f # fs) s = concat (map (matchFieldName fs) (matchFieldChar f s))"

fun matchColon :: "string \<Rightarrow> string list" where
  "matchColon [] = []"
| "matchColon (c # r) = (if c = CHR '':'' then spacesStar r else [])"

text \<open>
  One line against the expression: group 1 is what \<^verbatim>\<open>(.+)$\<close> takes, the rest of the
  line, which must not be empty, at the first way through the pieces before it.
\<close>

definition matchFieldLine :: "string \<Rightarrow> string \<Rightarrow> string option" where
  "matchFieldLine field line =
     find (\<lambda>r. r \<noteq> [])
       (concat (map matchColon (concat (map (matchFieldName field) (fieldPrefix line)))))"

text \<open>The lines of a text: \<^verbatim>\<open>^\<close> matches at its start and after each line terminator.\<close>

fun splitLines :: "string \<Rightarrow> string list" where
  "splitLines [] = [[]]"
| "splitLines (c # r) =
     (if isLineTerminator c then [] # splitLines r
      else (case splitLines r of l # ls \<Rightarrow> (c # l) # ls | [] \<Rightarrow> [[c]]))"

fun firstSome :: "('a \<Rightarrow> 'b option) \<Rightarrow> 'a list \<Rightarrow> 'b option" where
  "firstSome f [] = None"
| "firstSome f (x # xs) = (case f x of Some y \<Rightarrow> Some y | None \<Rightarrow> firstSome f xs)"

definition execField :: "string \<Rightarrow> string \<Rightarrow> string option" where
  "execField field head = firstSome (matchFieldLine field) (splitLines head)"

text \<open>\<^verbatim>\<open>field.replace(/\s+/g, '-')\<close>: every run of white space becomes one hyphen.\<close>

function replaceSpaces :: "string \<Rightarrow> string" where
  "replaceSpaces [] = []"
| "replaceSpaces (c # r) =
     (if isWhiteSpace c then CHR ''-'' # replaceSpaces (dropWhile isWhiteSpace r)
      else c # replaceSpaces r)"
  by pat_completeness auto
termination
  by (relation "measure length") (auto simp: length_dropWhile_le less_Suc_eq_le)

text \<open>\<^verbatim>\<open>/^%.+%$/.test(value)\<close>: a template placeholder left unresolved.\<close>

definition isPlaceholder :: "string \<Rightarrow> bool" where
  "isPlaceholder v \<longleftrightarrow>
     3 \<le> length v \<and> hd v = CHR ''%'' \<and> last v = CHR ''%''
     \<and> (\<forall>c \<in> set (butlast (tl v)). \<not> isLineTerminator c)"

text \<open>
  \<^verbatim>\<open>field.toLowerCase().replace(/-[a-z]/g, s => s.charAt(1).toUpperCase())\<close>: the
  property name of a field.
\<close>

fun camelCase :: "string \<Rightarrow> string" where
  "camelCase (a # b # r) =
     (if a = CHR ''-'' \<and> isLower b then toUpper b # camelCase r else a # camelCase (b # r))"
| "camelCase s = s"

definition fieldKey :: "string \<Rightarrow> string" where
  "fieldKey field = camelCase (map toLower field)"

text \<open>The body of the loop over \<open>fields\<close>, and the loop.\<close>

definition extractField :: "string \<Rightarrow> obj \<Rightarrow> string \<Rightarrow> obj" where
  "extractField head out field0 =
     (let field = replaceSpaces field0;
          value = (case execField field head of
                     None \<Rightarrow> Undefined
                   | Some m \<Rightarrow> if trim m = [] then Undefined else Str (trim m));
          value = (case value of
                     Str v \<Rightarrow> if isPlaceholder v then Undefined else Str v
                   | w \<Rightarrow> w)
      in objSet out (fieldKey field) value)"

definition extractFields :: "string \<Rightarrow> string list \<Rightarrow> obj" where
  "extractFields content fields = foldl (extractField (take 1024 content)) [] fields"

text \<open>
  The known fields are pre-processed after the loop. \<^verbatim>\<open>(new Date(s)).getTime()\<close> is the
  platform's date parser, a parameter \<open>dateTime\<close> of the model (\<open>None\<close> when the date is
  invalid and the time is \<^verbatim>\<open>NaN\<close>). A property set in the loop holds a string or
  \<^verbatim>\<open>undefined\<close>, and the three guards hold for a non-empty string only.
\<close>

definition preprocessLastModified :: "(string \<Rightarrow> rat option) \<Rightarrow> obj \<Rightarrow> obj" where
  "preprocessLastModified dateTime out =
     (case objGet out ''lastModified'' of
        Str s \<Rightarrow>
          if s \<noteq> [] then
            objSet out ''lastModified''
              (Num (case dateTime s of None \<Rightarrow> 0 | Some t \<Rightarrow> t))
          else out
      | _ \<Rightarrow> out)"

definition preprocessExpires :: "obj \<Rightarrow> obj" where
  "preprocessExpires out =
     (case objGet out ''expires'' of
        Str s \<Rightarrow>
          if s \<noteq> [] then objSet out ''expires'' (Num (max (parseExpires s) (1 / 2))) else out
      | _ \<Rightarrow> out)"

definition preprocessDiffExpires :: "obj \<Rightarrow> obj" where
  "preprocessDiffExpires out =
     (case objGet out ''diffExpires'' of
        Str s \<Rightarrow>
          if s \<noteq> [] then objSet out ''diffExpires'' (Num (max (parseExpires s) (1 / 4)))
          else out
      | _ \<Rightarrow> out)"

definition extractMetadataFromList ::
  "(string \<Rightarrow> rat option) \<Rightarrow> string \<Rightarrow> string list \<Rightarrow> obj" where
  "extractMetadataFromList dateTime content fields =
     preprocessDiffExpires
       (preprocessExpires
         (preprocessLastModified dateTime (extractFields content fields)))"

text \<open>A list header used to exercise the extractor.\<close>

definition headerSample :: string where
  "headerSample = ''! Expires: 6h'' @ [char_of (10::nat)] @ ''! Diff-Expires: 1h''"


text \<open>What the loop over the fields stores: \<^verbatim>\<open>undefined\<close> or a non-empty string.\<close>

definition rawValue :: "jsval \<Rightarrow> bool" where
  "rawValue v \<longleftrightarrow> (case v of Undefined \<Rightarrow> True | Str s \<Rightarrow> s \<noteq> [] | _ \<Rightarrow> False)"


section \<open>Fetcher\<close>

text \<open>
  The details object that a fetch settles with. \<open>None\<close> is an absent property. The
  request is made with response type \<^verbatim>\<open>text\<close>, so the response the transport hands
  over as \<open>content\<close> is a string.
\<close>

record details =
  url :: string
  content :: string
  error :: "string option"
  resourceTime :: "rat option"
  statusCode :: "nat option"
  statusText :: "string option"

text \<open>
  \<^verbatim>\<open>assets.fetch\<close> drives the HTTP transport, which is outside the engine: its promise
  either resolves with the details of a loaded response or rejects with the details of a
  failure.
\<close>

datatype settled = Resolved details | Rejected details

text \<open>
  \<^verbatim>\<open>reIsExternalPath = /^(?:[a-z-]+):\/\//\<close>: a non-empty run of lower-case letters and
  hyphens at the start, followed by \<open>://\<close>. The run is greedy and cannot contain the
  colon, so it is the longest one.
\<close>

definition isSchemeChar :: "char \<Rightarrow> bool" where
  "isSchemeChar c \<longleftrightarrow> isLower c \<or> c = CHR ''-''"

definition reIsExternalPath :: "string \<Rightarrow> bool" where
  "reIsExternalPath u \<longleftrightarrow>
     takeWhile isSchemeChar u \<noteq> [] \<and> take 3 (dropWhile isSchemeChar u) = ''://''"

definition startsWith :: "string \<Rightarrow> string \<Rightarrow> bool" where
  "startsWith s p \<longleftrightarrow> take (length p) s = p"

definition endsWith :: "string \<Rightarrow> string \<Rightarrow> bool" where
  "endsWith s p \<longleftrightarrow> length p \<le> length s \<and> drop (length s - length p) s = p"

definition stringIsNotEmpty :: "string \<Rightarrow> bool" where
  "stringIsNotEmpty s \<longleftrightarrow> s \<noteq> []"

text \<open>The decimal digits of a natural number, as a template literal renders it.\<close>

function showNat :: "nat \<Rightarrow> string" where
  "showNat n =
     (if n < 10 then [''0123456789'' ! n]
      else showNat (n div 10) @ [''0123456789'' ! (n mod 10)])"
  by pat_completeness auto
termination
  by (relation "measure id") auto

declare showNat.simps [simp del]

text \<open>
  \<^verbatim>\<open>Date.now()\<close> is \<open>now\<close>, the milliseconds since the epoch, a natural number;
  \<open>bypass\<close> is the hidden setting \<^verbatim>\<open>updateAssetBypassBrowserCache\<close>.
\<close>

definition cacheBypassToken :: "bool \<Rightarrow> nat \<Rightarrow> nat" where
  "cacheBypassToken bypass now =
     (if bypass then (now div 1000) mod 86413 else (now div 3600000) mod 13)"

text \<open>
  The URL that \<^verbatim>\<open>fetchText\<close> requests. \<open>getURL\<close> is the platform's
  \<^verbatim>\<open>vAPI.getURL\<close>, \<open>friendly\<close> the module variable \<^verbatim>\<open>remoteServerFriendly\<close>.
\<close>

definition actualUrl ::
  "(string \<Rightarrow> string) \<Rightarrow> bool \<Rightarrow> bool \<Rightarrow> nat \<Rightarrow> string \<Rightarrow> string" where
  "actualUrl getURL friendly bypass now u =
     (let isExternal = reIsExternalPath u;
          actual = (if isExternal then u else getURL u)
      in if isExternal \<and> \<not> friendly then
           (let queryValue = ''_='' @ showNat (cacheBypassToken bypass now)
            in (if CHR ''?'' \<notin> set actual then actual @ ''?'' else actual @ ''&'')
               @ queryValue)
         else actual)"

text \<open>What \<^verbatim>\<open>fetchText\<close> makes of the settled fetch, before the URL is put back.\<close>

definition checkText :: "settled \<Rightarrow> details" where
  "checkText r =
     (case r of
        Resolved d \<Rightarrow>
          (let d1 = (if \<not> stringIsNotEmpty (content d) then d\<lparr>content := []\<rparr> else d);
               text = trim (content d1)
           in if startsWith text ''<'' \<and> endsWith text ''>'' then
                d1\<lparr>content := [], error := Some ''assets.fetchText(): Not a text file''\<rparr>
              else d1)
      | Rejected ex \<Rightarrow> ex)"

definition fetchText ::
  "(string \<Rightarrow> string) \<Rightarrow> bool \<Rightarrow> bool \<Rightarrow> nat \<Rightarrow> (string \<Rightarrow> settled) \<Rightarrow> string
    \<Rightarrow> details" where
  "fetchText getURL friendly bypass now fetch u =
     (checkText (fetch (actualUrl getURL friendly bypass now u)))\<lparr>url := u\<rparr>"

text \<open>Two responses used to exercise the fetcher: an HTML page and an unclosed tag.\<close>

definition htmlPage :: details where
  "htmlPage = \<lparr>url = ''https://h/e.txt'', content = ''<html></html>'', error = None,
     resourceTime = Some 0, statusCode = Some 200, statusText = Some ''OK''\<rparr>"

definition openTag :: details where
  "openTag = \<lparr>url = ''https://h/e.txt'', content = ''<!'', error = None,
     resourceTime = Some 0, statusCode = Some 200, statusText = Some ''OK''\<rparr>"

section \<open>Registries and storage\<close>

text \<open>
  The state of the module. The two registries are dictionaries from asset keys to entry
  objects, enumerated in insertion order by \<^verbatim>\<open>for ... in\<close>. \<open>cacheStorage\<close> is the
  key/value store behind \<^verbatim>\<open>cacheStorage.get/set/remove\<close>; it holds the content of an
  asset under \<open>cache/<key>\<close> and the snapshots of the cache registry under
  \<open>assetCacheRegistry\<close>. \<open>settingsStorage\<close> is \<^verbatim>\<open>vAPI.storage\<close>, where user assets
  live. A timer of a debounced save is on or off; the timer of the updater is off or
  set to a delay. The observers of the notification bus
  are callbacks of other modules: the state keeps the list of the notifications fired,
  and what the observers answer is a parameter where the engine reads it. Both registries
  are taken as loaded, so that the memoised promises of \<^verbatim>\<open>getAssetCacheRegistry\<close> and
  \<^verbatim>\<open>getAssetSourceRegistry\<close> resolve to the dictionaries of the state.
\<close>

datatype stored = Text string | Blob | Registry "(string \<times> obj) list"

type_synonym dict = "(string \<times> obj) list"

record engine =
  assetCacheRegistry :: dict
  assetSourceRegistry :: dict
  cacheStorage :: "string \<rightharpoonup> stored"
  settingsStorage :: "string \<rightharpoonup> jsval"
  cacheRegistrySaveTimer :: bool
  sourceRegistrySaveTimer :: bool
  notifications :: "(string \<times> obj) list"
  updaterFetched :: "string list"
  updaterUpdated :: "string list"
  remoteServerFriendly :: bool
  updaterAuto :: bool
  updaterStatus :: "string option"
  updaterAssetDelay :: rat
  updaterTimer :: "rat option"

definition fireNotification :: "string \<Rightarrow> obj \<Rightarrow> engine \<Rightarrow> engine" where
  "fireNotification topic ds st = st\<lparr>notifications := notifications st @ [(topic, ds)]\<rparr>"

text \<open>
  \<^verbatim>\<open>saveAssetCacheRegistry(lazily)\<close>: a lazy save restarts the 30 second timer, any
  other call stops the timer and stores a snapshot of the registry.
\<close>

definition saveAssetCacheRegistry :: "bool \<Rightarrow> engine \<Rightarrow> engine" where
  "saveAssetCacheRegistry lazily st =
     (if lazily then st\<lparr>cacheRegistrySaveTimer := True\<rparr>
      else st\<lparr>cacheRegistrySaveTimer := False,
              cacheStorage := (cacheStorage st)
                (''assetCacheRegistry'' \<mapsto> Registry (assetCacheRegistry st))\<rparr>)"

definition saveAssetSourceRegistry :: "bool \<Rightarrow> engine \<Rightarrow> engine" where
  "saveAssetSourceRegistry lazily st =
     (if lazily then st\<lparr>sourceRegistrySaveTimer := True\<rparr>
      else st\<lparr>sourceRegistrySaveTimer := False,
              cacheStorage := (cacheStorage st)
                (''assetSourceRegistry'' \<mapsto> Registry (assetSourceRegistry st))\<rparr>)"

text \<open>
  \<^verbatim>\<open>reportBack\<close> of \<^verbatim>\<open>assetCacheRead\<close>: a blob counts as empty content, and empty
  content is reported with the error \<open>ENOTFOUND\<close>. A snapshot of the registry is never
  stored under a \<open>cache/\<close> key; it is reported like a blob.
\<close>

definition reportBackRead :: "string \<Rightarrow> stored \<Rightarrow> obj" where
  "reportBackRead assetKey stored =
     (let content = (case stored of Text s \<Rightarrow> s | _ \<Rightarrow> []);
          ds = [(''assetKey'', Str assetKey), (''content'', Str content)]
      in if content = [] then objSet ds ''error'' (Str ''ENOTFOUND'') else ds)"

text \<open>
  \<^verbatim>\<open>assetCacheRead(assetKey, updateReadTime)\<close> at the time \<open>now\<close>. The statistic
  \<^verbatim>\<open>maxAssetCacheWait\<close> that it may write belongs to the background module and is not
  part of the state.
\<close>

definition assetCacheRead :: "rat \<Rightarrow> string \<Rightarrow> bool \<Rightarrow> engine \<Rightarrow> obj \<times> engine" where
  "assetCacheRead now assetKey updateReadTime st =
     (let internalKey = ''cache/'' @ assetKey
      in case cacheStorage st internalKey of
           None \<Rightarrow> (reportBackRead assetKey (Text []), st)
         | Some bin \<Rightarrow>
             (case map_of (assetCacheRegistry st) assetKey of
                None \<Rightarrow> (reportBackRead assetKey (Text []), st)
              | Some entry \<Rightarrow>
                  (let st1 = st\<lparr>assetCacheRegistry :=
                         AList.update assetKey (objSet entry ''readTime'' (Num now))
                           (assetCacheRegistry st)\<rparr>;
                       st2 = (if updateReadTime then saveAssetCacheRegistry True st1 else st1)
                   in (reportBackRead assetKey bin, st2))))"

text \<open>
  \<^verbatim>\<open>assetCacheRemove(pattern)\<close>. The pattern is a string, a regular expression (its
  \<^verbatim>\<open>test\<close>), or something else, which no key is compared with, so that every entry goes.
\<close>

datatype pattern = PatString string | PatRegExp "string \<Rightarrow> bool" | PatOther

fun patternKeeps :: "pattern \<Rightarrow> string \<Rightarrow> bool" where
  "patternKeeps (PatString s) assetKey = (assetKey \<noteq> s)"
| "patternKeeps (PatRegExp test) assetKey = (\<not> test assetKey)"
| "patternKeeps PatOther assetKey = False"

definition assetCacheRemove :: "pattern \<Rightarrow> engine \<Rightarrow> engine" where
  "assetCacheRemove pat st =
     (let removedEntries = filter (\<lambda>k. \<not> patternKeeps pat k) (map fst (assetCacheRegistry st));
          removedContent = map (\<lambda>k. ''cache/'' @ k) removedEntries;
          st1 = st\<lparr>assetCacheRegistry :=
                  filter (\<lambda>(k, e). patternKeeps pat k) (assetCacheRegistry st)\<rparr>;
          st2 = (if removedContent \<noteq> [] then
                   st1\<lparr>cacheStorage :=
                     ((\<lambda>k. if k \<in> set removedContent then None else cacheStorage st1 k))
                       (''assetCacheRegistry'' \<mapsto> Registry (assetCacheRegistry st1))\<rparr>
                 else st1)
      in foldl (\<lambda>s k. fireNotification ''after-asset-updated'' [(''assetKey'', Str k)] s)
           st2 removedEntries)"

text \<open>
  \<^verbatim>\<open>assetCacheWrite(assetKey, details)\<close> at the time \<open>now\<close>; \<open>details\<close> is the content
  itself or an object with the properties \<open>content\<close>, \<open>url\<close>, \<open>resourceTime\<close> and
  \<open>silent\<close>. Nothing is returned when the write turns into a removal.
\<close>

datatype writeArg = WString string | WObject obj

definition assetCacheWrite ::
  "rat \<Rightarrow> string \<Rightarrow> writeArg \<Rightarrow> engine \<Rightarrow> obj option \<times> engine" where
  "assetCacheWrite now assetKey ds st =
     (let content = (case ds of
                       WString s \<Rightarrow> s
                     | WObject ob \<Rightarrow> (case objGet ob ''content'' of Str s \<Rightarrow> s | _ \<Rightarrow> []));
          options = (case ds of WString s \<Rightarrow> [] | WObject ob \<Rightarrow> ob)
      in if content = [] then (None, assetCacheRemove (PatString assetKey) st)
         else
           (let entry = (case map_of (assetCacheRegistry st) assetKey of
                           None \<Rightarrow> [] | Some e \<Rightarrow> e);
                entry = objSet entry ''readTime'' (Num now);
                entry = objSet entry ''writeTime'' (Num now);
                entry = objSet entry ''resourceTime''
                          (if truthy (objGet options ''resourceTime'')
                           then objGet options ''resourceTime'' else Num 0);
                entry = (case objGet options ''url'' of
                           Str u \<Rightarrow> objSet entry ''remoteURL'' (Str u)
                         | _ \<Rightarrow> entry);
                st1 = st\<lparr>assetCacheRegistry :=
                        AList.update assetKey entry (assetCacheRegistry st)\<rparr>;
                st2 = st1\<lparr>cacheStorage := (cacheStorage st1)
                        (''assetCacheRegistry'' \<mapsto> Registry (assetCacheRegistry st1),
                         ''cache/'' @ assetKey \<mapsto> Text content)\<rparr>;
                result = [(''assetKey'', Str assetKey), (''content'', Str content)];
                st3 = (if objGet options ''silent'' \<noteq> Bool True
                       then fireNotification ''after-asset-updated'' result st2 else st2)
            in (Some result, st3)))"

text \<open>\<^verbatim>\<open>assetCacheGetDetails(assetKey)\<close>: the entry, or nothing.\<close>

definition assetCacheGetDetails :: "string \<Rightarrow> engine \<Rightarrow> obj option" where
  "assetCacheGetDetails assetKey st = map_of (assetCacheRegistry st) assetKey"

text \<open>
  \<^verbatim>\<open>assetCacheSetDetails(assetKey, details)\<close>: the loop over the entries of \<open>details\<close>
  carries the entry and the flag \<open>modified\<close>; a change is saved at once.
\<close>

definition setDetail :: "obj \<times> bool \<Rightarrow> string \<times> jsval \<Rightarrow> obj \<times> bool" where
  "setDetail acc kv =
     (case (acc, kv) of ((entry, modified), (k, v)) \<Rightarrow>
        if v = Undefined \<and> objGet entry k \<noteq> Undefined then (objDelete entry k, True)
        else if v \<noteq> objGet entry k then (objSet entry k v, True)
        else (entry, modified))"

definition assetCacheSetDetails :: "string \<Rightarrow> obj \<Rightarrow> engine \<Rightarrow> engine" where
  "assetCacheSetDetails assetKey ds st =
     (case map_of (assetCacheRegistry st) assetKey of
        None \<Rightarrow> st
      | Some entry \<Rightarrow>
          (case foldl setDetail (entry, False) ds of
             (entry1, modified) \<Rightarrow>
               (let st1 = st\<lparr>assetCacheRegistry :=
                       AList.update assetKey entry1 (assetCacheRegistry st)\<rparr>
                in if modified then saveAssetCacheRegistry False st1 else st1)))"

text \<open>A state used to exercise the cache: one asset, cached at time 1000.\<close>

definition sampleEngine :: engine where
  "sampleEngine =
     \<lparr>assetCacheRegistry =
        [(''easylist'', [(''readTime'', Num 1000), (''writeTime'', Num 1000),
                        (''resourceTime'', Num 2000),
                        (''remoteURL'', Str ''https://h/e.txt'')])],
      assetSourceRegistry =
        [(''easylist'', [(''content'', Str ''filters''),
                        (''contentURL'', Arr [''https://h/e.txt'']),
                        (''hasLocalURL'', Bool False), (''hasRemoteURL'', Bool True)])],
      cacheStorage = [''cache/easylist'' \<mapsto> Text ''||a.com^''],
      settingsStorage = Map.empty,
      cacheRegistrySaveTimer = False,
      sourceRegistrySaveTimer = False,
      notifications = [],
      updaterFetched = [],
      updaterUpdated = [],
      remoteServerFriendly = False,
      updaterAuto = False,
      updaterStatus = Some ''updating'',
      updaterAssetDelay = 120000,
      updaterTimer = None\<rparr>"

section \<open>List assembler\<close>

text \<open>
  What the assembler takes from the platform and from the other modules:
  \<^verbatim>\<open>vAPI.getURL\<close>; the constructor \<^verbatim>\<open>new URL(s)\<close>, which gives the path name of an
  absolute URL and nothing when it throws; the splitter of the filter preparser, which
  gives the boundaries of the slices of a text; the date parser.
\<close>

record platform =
  vapiGetURL :: "string \<Rightarrow> string"
  newURL :: "string \<Rightarrow> string option"
  preparserSplitter :: "string \<Rightarrow> nat list"
  dateGetTime :: "string \<Rightarrow> rat option"

definition toParsedURL :: "platform \<Rightarrow> string \<Rightarrow> string option" where
  "toParsedURL pf u = newURL pf (trim u)"

text \<open>
  \<^verbatim>\<open>rootDirectoryURL\<close> is only ever tested against \<^verbatim>\<open>undefined\<close>: it is defined when
  the main URL parses and its path name has a slash.
\<close>

definition rootDirectoryDefined :: "platform \<Rightarrow> string \<Rightarrow> bool" where
  "rootDirectoryDefined pf mainlistURL =
     (case toParsedURL pf
             (if reIsExternalPath mainlistURL then mainlistURL else vapiGetURL pf mainlistURL) of
        None \<Rightarrow> False
      | Some pathname \<Rightarrow> CHR ''/'' \<in> set pathname)"

text \<open>
  \<^verbatim>\<open>isDiffUpdatableAsset\<close>: the \<open>Diff-Path\<close> header is a string matching
  \<^verbatim>\<open>/^[^%].*[^%]$/\<close>.
\<close>

definition isDiffUpdatableAsset :: "platform \<Rightarrow> string \<Rightarrow> bool" where
  "isDiffUpdatableAsset pf text =
     (case objGet (extractMetadataFromList (dateGetTime pf) text [''Diff-Path'']) ''diffPath'' of
        Str v \<Rightarrow> 2 \<le> length v \<and> hd v \<noteq> CHR ''%'' \<and> last v \<noteq> CHR ''%''
                 \<and> (\<forall>c \<in> set (butlast (tl v)). \<not> isLineTerminator c)
      | _ \<Rightarrow> False)"

text \<open>
  The parts of a list: before \<^verbatim>\<open>Promise.all\<close> a part is a string or the promise of
  \<^verbatim>\<open>fetchText(subURL)\<close>, after it a string or the details the promise resolved with.
\<close>

datatype part = PString string | PFetch string

datatype settledPart = RString string | RDetails details

fun settle :: "(string \<Rightarrow> details) \<Rightarrow> part \<Rightarrow> settledPart" where
  "settle ft (PString s) = RString s"
| "settle ft (PFetch u) = RDetails (ft u)"

fun partError :: "settledPart \<Rightarrow> string option" where
  "partError (RString s) = None"
| "partError (RDetails d) = error d"

text \<open>\<^verbatim>\<open>resourceTimeFromParts\<close>: the reduction over the parts that are objects.\<close>

fun resourceTimeStep :: "rat \<Rightarrow> settledPart \<Rightarrow> rat" where
  "resourceTimeStep acc (RString s) = acc"
| "resourceTimeStep acc (RDetails d) =
     (case resourceTime d of
        None \<Rightarrow> acc
      | Some t \<Rightarrow> if t > acc then t else acc)"

definition resourceTimeFromParts :: "settledPart list \<Rightarrow> rat \<Rightarrow> rat" where
  "resourceTimeFromParts parts time = foldl resourceTimeStep time parts"

text \<open>
  \<^verbatim>\<open>reInclude = /^!#include +(\S+)[^\n\r]*(?:[\n\r]+|$)/gm\<close> at the start of a line:
  the directive, one space or more, the path (the longest run without white space, which
  must not be empty), the rest of the line and the line terminators after it. Every
  piece is greedy and the first attempt succeeds. The result is the text matched,
  group 1 and the text left.
\<close>

definition isNewline :: "char \<Rightarrow> bool" where
  "isNewline c \<longleftrightarrow> isLineTerminator c"

definition matchInclude :: "string \<Rightarrow> (string \<times> string \<times> string) option" where
  "matchInclude s =
     (if \<not> startsWith s ''!#include '' then None
      else
        (let s2 = dropWhile (\<lambda>c. c = CHR '' '') (drop 9 s);
             path = takeWhile (\<lambda>c. \<not> isWhiteSpace c) s2;
             s3 = dropWhile (\<lambda>c. \<not> isWhiteSpace c) s2;
             s4 = dropWhile (\<lambda>c. \<not> isNewline c) s3;
             s5 = dropWhile isNewline s4
         in if path = [] then None
            else Some (take (length s - length s5) s, path, s5)))"

text \<open>
  \<^verbatim>\<open>reInclude.exec\<close> from the position the expression has reached: the first line
  start from there on at which the expression matches. The result is the text from that
  position to the end of the match, group 1 and the text left. \<open>lineStart\<close> tells
  whether the position is at the start of a line.
\<close>

fun execInclude :: "bool \<Rightarrow> string \<Rightarrow> (string \<times> string \<times> string) option" where
  "execInclude lineStart [] = None"
| "execInclude lineStart (c # r) =
     (case (if lineStart then matchInclude (c # r) else None) of
        Some m \<Rightarrow> Some m
      | None \<Rightarrow>
          (case execInclude (isLineTerminator c) r of
             None \<Rightarrow> None
           | Some (m, path, rest) \<Rightarrow> Some (c # m, path, rest)))"

fun hasDotDot :: "string \<Rightarrow> bool" where
  "hasDotDot (a # b # r) = ((a = CHR ''.'' \<and> b = CHR ''.'') \<or> hasDotDot (b # r))"
| "hasDotDot s = False"

text \<open>\<^verbatim>\<open>u.slice(0, u.lastIndexOf('/') + 1)\<close>, when \<open>u\<close> has a slash.\<close>

definition parentDirectory :: "string \<Rightarrow> string option" where
  "parentDirectory u =
     (if CHR ''/'' \<notin> set u then None
      else Some (rev (dropWhile (\<lambda>c. c \<noteq> CHR ''/'') (rev u))))"

text \<open>
  What the loop does with one match: the sub-URL to fetch, or nothing when the directive
  is skipped. \<open>scheduled\<close> is the set \<^verbatim>\<open>sublistURLs\<close>.
\<close>

definition includeTarget :: "platform \<Rightarrow> string \<Rightarrow> string list \<Rightarrow> string \<Rightarrow> string option" where
  "includeTarget pf parentURL scheduled path =
     (if toParsedURL pf path \<noteq> None then None
      else if hasDotDot path then None
      else (case parentDirectory parentURL of
              None \<Rightarrow> None
            | Some dir \<Rightarrow>
                (let subURL = dir @ trim path
                 in if subURL \<in> set scheduled then None else Some subURL)))"

lemma startsWith_length: "startsWith s p \<Longrightarrow> length p \<le> length s"
  by (metis startsWith_def length_take min.cobounded1)

lemma matchInclude_shorter:
  "matchInclude s = Some (m, path, rest) \<Longrightarrow> length rest < length s"
proof -
  assume a: "matchInclude s = Some (m, path, rest)"
  then have st: "startsWith s ''!#include ''"
    by (auto simp: matchInclude_def split: if_splits)
  then have "length ''!#include '' \<le> length s" by (rule startsWith_length)
  then have l: "10 \<le> length s" by simp
  from a st have "rest = dropWhile isNewline (dropWhile (\<lambda>c. \<not> isNewline c)
      (dropWhile (\<lambda>c. \<not> isWhiteSpace c) (dropWhile (\<lambda>c. c = CHR '' '') (drop 9 s))))"
    by (auto simp: matchInclude_def Let_def split: if_splits)
  then have "length rest \<le> length (drop 9 s)"
    by (metis length_dropWhile_le order_trans)
  then show ?thesis using l by simp
qed

lemma execInclude_shorter:
  "execInclude lineStart s = Some (m, path, rest) \<Longrightarrow> length rest < length s"
proof (induction s arbitrary: lineStart m)
  case Nil
  then show ?case by simp
next
  case (Cons c r)
  show ?case
  proof (cases "(if lineStart then matchInclude (c # r) else None)")
    case (Some x)
    then have "matchInclude (c # r) = Some (m, path, rest)"
      using Cons.prems by (auto split: if_splits)
    then show ?thesis by (rule matchInclude_shorter)
  next
    case None
    then obtain m' where "execInclude (isLineTerminator c) r = Some (m', path, rest)"
      using Cons.prems by (auto split: option.splits)
    then have "length rest < length r" by (rule Cons.IH)
    then show ?thesis by simp
  qed
qed

text \<open>
  The loop over the matches of one active slice. \<open>held\<close> is the text of the slice from
  \<^verbatim>\<open>lastIndex\<close> to the position the expression has reached, \<open>rest\<close> the text from
  there on; \<open>out\<close> and \<open>scheduled\<close> are the array \<^verbatim>\<open>out\<close> and the set
  \<^verbatim>\<open>sublistURLs\<close>. After a match the position is at the start of a line or at the end
  of the slice.
\<close>

function scanSlice ::
  "platform \<Rightarrow> string \<Rightarrow> string \<Rightarrow> string \<Rightarrow> string list \<Rightarrow> part list
    \<Rightarrow> part list \<times> string list" where
  "scanSlice pf parentURL held rest scheduled out =
     (case execInclude True rest of
        None \<Rightarrow> (out @ [PString (held @ rest)], scheduled)
      | Some (m, path, rest') \<Rightarrow>
          (case includeTarget pf parentURL scheduled path of
             None \<Rightarrow> scanSlice pf parentURL (held @ m) rest' scheduled out
           | Some subURL \<Rightarrow>
               scanSlice pf parentURL [] rest' (scheduled @ [subURL])
                 (out @ [PString (held @ m),
                         PString (''! >>>>>>>> '' @ subURL @ [char_of (10::nat)]),
                         PFetch subURL,
                         PString (''! <<<<<<<< '' @ subURL @ [char_of (10::nat)])])))"
  by pat_completeness auto
termination
  by (relation "measure (\<lambda>(pf, parentURL, held, rest, scheduled, out). length rest)")
    (auto dest: execInclude_shorter)

declare scanSlice.simps [simp del]

text \<open>
  The slices of a text are cut at the boundaries the splitter gives; the slices at odd
  positions are inside an excluded \<^verbatim>\<open>!#if\<close> and are copied, the others are scanned
  unless \<^verbatim>\<open>rootDirectoryURL\<close> is undefined.
\<close>

definition slicesOf :: "string \<Rightarrow> nat list \<Rightarrow> string list" where
  "slicesOf text bounds = map (\<lambda>(a, b). take (b - a) (drop a text)) (zip bounds (tl bounds))"

fun processSlices ::
  "platform \<Rightarrow> bool \<Rightarrow> string \<Rightarrow> bool \<Rightarrow> string list \<Rightarrow> string list \<Rightarrow> part list
    \<Rightarrow> part list \<times> string list" where
  "processSlices pf rootDefined parentURL excluded [] scheduled out = (out, scheduled)"
| "processSlices pf rootDefined parentURL excluded (slice # slices) scheduled out =
     (if excluded then
        processSlices pf rootDefined parentURL False slices scheduled (out @ [PString slice])
      else
        (case (if rootDefined then scanSlice pf parentURL [] slice scheduled out
               else (out @ [PString slice], scheduled)) of
           (out1, scheduled1) \<Rightarrow>
             processSlices pf rootDefined parentURL True slices scheduled1 out1))"

fun processResult ::
  "platform \<Rightarrow> bool \<Rightarrow> part list \<times> string list \<Rightarrow> settledPart \<Rightarrow> part list \<times> string list" where
  "processResult pf rootDefined (out, scheduled) (RString s) = (out @ [PString s], scheduled)"
| "processResult pf rootDefined (out, scheduled) (RDetails result) =
     processSlices pf rootDefined (url result) False
       (slicesOf (content result) (preparserSplitter pf (content result))) scheduled out"

definition processIncludeDirectives ::
  "platform \<Rightarrow> bool \<Rightarrow> settledPart list \<Rightarrow> string list \<Rightarrow> part list \<times> string list" where
  "processIncludeDirectives pf rootDefined results scheduled =
     foldl (processResult pf rootDefined) ([], scheduled) results"

text \<open>
  The loop of \<^verbatim>\<open>fetchFilterList\<close>. \<open>ft\<close> is \<^verbatim>\<open>fetchText\<close> with the network behind
  it. A list may include sublists without end, so the rounds of the loop are counted
  down from \<open>fuel\<close>, and \<open>None\<close> is a loop that has not returned within them. The set
  \<^verbatim>\<open>sublistURLs\<close> is returned along with the result.
\<close>

fun partText :: "part \<Rightarrow> string" where
  "partText (PString s) = s"
| "partText (PFetch u) = []"

fun isFetch :: "part \<Rightarrow> bool" where
  "isFetch (PString s) = False"
| "isFetch (PFetch u) = True"

definition assembled :: "string \<Rightarrow> rat \<Rightarrow> part list \<Rightarrow> details" where
  "assembled mainlistURL time parts =
     \<lparr>url = mainlistURL,
      content = (case parts of [p] \<Rightarrow> partText p
                 | _ \<Rightarrow> concat (map partText parts) @ [char_of (10::nat)]),
      error = None, resourceTime = Some time, statusCode = None, statusText = None\<rparr>"

definition failed :: "string \<Rightarrow> string option \<Rightarrow> details" where
  "failed mainlistURL e =
     \<lparr>url = mainlistURL, content = [], error = e, resourceTime = None,
      statusCode = None, statusText = None\<rparr>"

fun diffUpdatableAlone :: "platform \<Rightarrow> settledPart list \<Rightarrow> string option" where
  "diffUpdatableAlone pf [RDetails d] =
     (if isDiffUpdatableAsset pf (content d) then Some (content d) else None)"
| "diffUpdatableAlone pf parts = None"

fun fetchLoop ::
  "nat \<Rightarrow> platform \<Rightarrow> (string \<Rightarrow> details) \<Rightarrow> string \<Rightarrow> bool \<Rightarrow> part list \<Rightarrow> rat
    \<Rightarrow> string list \<Rightarrow> (details \<times> string list) option" where
  "fetchLoop 0 pf ft mainlistURL rootDefined allParts time scheduled = None"
| "fetchLoop (Suc fuel) pf ft mainlistURL rootDefined allParts time scheduled =
     (let settledParts = map (settle ft) allParts
      in case find (\<lambda>p. partError p \<noteq> None) settledParts of
           Some p \<Rightarrow> Some (failed mainlistURL (partError p), scheduled)
         | None \<Rightarrow>
             (let time1 = resourceTimeFromParts settledParts time
              in case diffUpdatableAlone pf settledParts of
                   Some text \<Rightarrow> Some (assembled mainlistURL time1 [PString text], scheduled)
                 | None \<Rightarrow>
                     (case processIncludeDirectives pf rootDefined settledParts scheduled of
                        (parts1, scheduled1) \<Rightarrow>
                          if list_ex isFetch parts1 then
                            fetchLoop fuel pf ft mainlistURL rootDefined parts1 time1 scheduled1
                          else Some (assembled mainlistURL time1 parts1, scheduled1))))"

declare fetchLoop.simps [simp del]

definition fetchFilterList ::
  "nat \<Rightarrow> platform \<Rightarrow> (string \<Rightarrow> details) \<Rightarrow> string \<Rightarrow> details option" where
  "fetchFilterList fuel pf ft mainlistURL =
     map_option fst
       (fetchLoop fuel pf ft mainlistURL (rootDirectoryDefined pf mainlistURL)
          [PFetch mainlistURL] 0 [])"

text \<open>The URLs of the fetches among the parts, in order.\<close>

fun fetchURLs :: "part list \<Rightarrow> string list" where
  "fetchURLs [] = []"
| "fetchURLs (PString s # ps) = fetchURLs ps"
| "fetchURLs (PFetch u # ps) = u # fetchURLs ps"

text \<open>
  The relation between the array \<^verbatim>\<open>out\<close> and the set \<^verbatim>\<open>sublistURLs\<close> before and
  after a stretch of include processing, used to state what the processing may emit:
  the fetches added are exactly the URLs newly scheduled, each once, none scheduled
  before, and each is the directory of one of the parent URLs followed by a path that is
  not an absolute URL and has no \<open>..\<close>.
\<close>

definition emits ::
  "platform \<Rightarrow> string set \<Rightarrow> part list \<times> string list \<Rightarrow> part list \<times> string list \<Rightarrow> bool" where
  "emits pf parents before after \<longleftrightarrow>
     (\<exists>new. fetchURLs (fst after) = fetchURLs (fst before) @ new
        \<and> snd after = snd before @ new
        \<and> distinct new \<and> set new \<inter> set (snd before) = {}
        \<and> (\<forall>u \<in> set new. \<exists>parentURL \<in> parents. \<exists>dir path.
               parentDirectory parentURL = Some dir \<and> u = dir @ trim path
               \<and> toParsedURL pf path = None \<and> \<not> hasDotDot path))"

text \<open>The URLs of the lists that a round of include processing reads directives from.\<close>

fun parentURLs :: "settledPart list \<Rightarrow> string set" where
  "parentURLs [] = {}"
| "parentURLs (RString s # ps) = parentURLs ps"
| "parentURLs (RDetails d # ps) = insert (url d) (parentURLs ps)"

text \<open>
  A platform and responses used to exercise the assembler: the extension's files are
  under \<open>ext://id/\<close>, a string is an absolute URL when it starts with a scheme, the path
  name is what follows the host, and the splitter finds no \<^verbatim>\<open>!#if\<close>.
\<close>

definition pfSample :: platform where
  "pfSample =
     \<lparr>vapiGetURL = (\<lambda>u. ''ext://id/'' @ u),
      newURL = (\<lambda>s. if reIsExternalPath s
                     then Some (dropWhile (\<lambda>c. c \<noteq> CHR ''/'') (drop 3 (dropWhile isSchemeChar s)))
                     else None),
      preparserSplitter = (\<lambda>s. [0, length s]),
      dateGetTime = (\<lambda>s. None)\<rparr>"

definition loaded :: "string \<Rightarrow> string \<Rightarrow> details" where
  "loaded u text =
     \<lparr>url = u, content = text, error = None, resourceTime = Some 0,
      statusCode = Some 200, statusText = Some ''OK''\<rparr>"

definition newline :: string where
  "newline = [char_of (10::nat)]"

definition mainListText :: string where
  "mainListText =
     ''!#include b.txt'' @ newline @ ''!#include ../e'' @ newline
     @ ''!#include http://x/y'' @ newline @ ''!#include b.txt'' @ newline @ ''||a^''"

definition sampleNet :: "string \<Rightarrow> details" where
  "sampleNet u =
     (if u = ''https://h/a.txt'' then loaded u mainListText
      else if u = ''https://h/b.txt'' then loaded u ''||b^''
      else if u = ''https://h/m.txt'' then loaded u (''!#include gone.txt'' @ newline @ ''||m^'')
      else if u = ''filters.txt'' then loaded u ''!#include b.txt''
      else failed u (Some ''https://h/gone.txt: 404 Not Found''))"


text \<open>
  The directives of a slice, as the loop over the matches meets them: group 1 of each
  match of \<^verbatim>\<open>reInclude\<close>, the search resuming where the last match ended.
\<close>

function directivePaths :: "string \<Rightarrow> string list" where
  "directivePaths rest =
     (case execInclude True rest of
        None \<Rightarrow> []
      | Some (m, path, rest') \<Rightarrow> path # directivePaths rest')"
  by pat_completeness auto
termination
  by (relation "measure length") (auto dest: execInclude_shorter)

declare directivePaths.simps [simp del]

text \<open>
  The slices that are scanned, those at even positions, and the directives of a round of
  include processing: for each list among the results, in order, the directives of its
  active slices, each with the URL of the list it stands in.
\<close>

fun activeSlices :: "bool \<Rightarrow> string list \<Rightarrow> string list" where
  "activeSlices excluded [] = []"
| "activeSlices excluded (slice # slices) =
     (if excluded then activeSlices False slices else slice # activeSlices True slices)"

fun roundDirectives :: "platform \<Rightarrow> settledPart list \<Rightarrow> (string \<times> string) list" where
  "roundDirectives pf [] = []"
| "roundDirectives pf (RString s # results) = roundDirectives pf results"
| "roundDirectives pf (RDetails result # results) =
     map (Pair (url result))
       (concat (map directivePaths
          (activeSlices False
             (slicesOf (content result) (preparserSplitter pf (content result))))))
     @ roundDirectives pf results"

text \<open>
  The amended claim in its own words. A path is resolved against the URL of the parent
  list: the URL up to its last slash, then the trimmed path. A directive is skipped when
  the root directory URL is undefined, when its path parses as an absolute URL or has
  \<open>..\<close>, when the parent URL has no slash, or when the resolved URL is scheduled
  already. \<open>includedURLs\<close> goes through the directives in order and collects the
  resolved URL of each directive that is not skipped, scheduling it for the directives
  that follow.
\<close>

definition resolveInclude :: "string \<Rightarrow> string \<Rightarrow> string" where
  "resolveInclude parentURL path =
     rev (dropWhile (\<lambda>c. c \<noteq> CHR ''/'') (rev parentURL)) @ trim path"

definition directiveSkipped ::
  "platform \<Rightarrow> bool \<Rightarrow> string \<Rightarrow> string list \<Rightarrow> string \<Rightarrow> bool" where
  "directiveSkipped pf rootDefined parentURL scheduled path \<longleftrightarrow>
     \<not> rootDefined \<or> toParsedURL pf path \<noteq> None \<or> hasDotDot path
     \<or> CHR ''/'' \<notin> set parentURL \<or> resolveInclude parentURL path \<in> set scheduled"

fun includedURLs ::
  "platform \<Rightarrow> bool \<Rightarrow> string list \<Rightarrow> (string \<times> string) list \<Rightarrow> string list" where
  "includedURLs pf rootDefined scheduled [] = []"
| "includedURLs pf rootDefined scheduled ((parentURL, path) # directives) =
     (if directiveSkipped pf rootDefined parentURL scheduled path
      then includedURLs pf rootDefined scheduled directives
      else resolveInclude parentURL path
             # includedURLs pf rootDefined (scheduled @ [resolveInclude parentURL path])
                 directives)"

section \<open>Source registry\<close>

text \<open>
  \<^verbatim>\<open>registerAssetSource(assetKey, newDict)\<close> at the time \<open>now\<close>: the properties of
  \<open>newDict\<close> are merged into the entry, \<open>contentURL\<close> is made an array and the two
  flags are derived from it.
\<close>

definition mergeProperty :: "obj \<Rightarrow> string \<times> jsval \<Rightarrow> obj" where
  "mergeProperty currentDict kv =
     (case kv of (k, v) \<Rightarrow>
        if v = Undefined then objDelete currentDict k else objSet currentDict k v)"

definition registerAssetSource :: "rat \<Rightarrow> string \<Rightarrow> obj \<Rightarrow> engine \<Rightarrow> engine" where
  "registerAssetSource now assetKey newDict st =
     (let currentDict = (case map_of (assetSourceRegistry st) assetKey of
                           None \<Rightarrow> [] | Some e \<Rightarrow> e);
          currentDict = foldl mergeProperty currentDict newDict;
          currentDict =
            (if objGet newDict ''contentURL'' \<noteq> Undefined then
               (let currentDict =
                      (case objGet newDict ''contentURL'' of
                         Str u \<Rightarrow> objSet currentDict ''contentURL'' (Arr [u])
                       | Arr us \<Rightarrow> currentDict
                       | _ \<Rightarrow> objSet currentDict ''contentURL'' (Arr []));
                    contentURL =
                      (case objGet newDict ''contentURL'' of
                         Str u \<Rightarrow> [u] | Arr us \<Rightarrow> us | _ \<Rightarrow> []);
                    remoteURLCount = length (filter reIsExternalPath contentURL);
                    currentDict = objSet currentDict ''hasLocalURL''
                                    (Bool (remoteURLCount \<noteq> length contentURL))
                in objSet currentDict ''hasRemoteURL'' (Bool (remoteURLCount \<noteq> 0)))
             else if objGet currentDict ''contentURL'' = Undefined then
               objSet currentDict ''contentURL'' (Arr [])
             else currentDict);
          currentDict =
            (if truthy (objGet currentDict ''submitter'')
             then objSet currentDict ''submitTime'' (Num now) else currentDict)
      in st\<lparr>assetSourceRegistry :=
              AList.update assetKey currentDict (assetSourceRegistry st)\<rparr>)"

text \<open>
  \<^verbatim>\<open>reportBack\<close> writes \<open>lastError\<close> on \<^verbatim>\<open>assetDetails\<close>. That object is the entry
  of the source registry when the asset has one (\<open>known\<close>), and an object of its own
  otherwise, whose change nothing else sees.
\<close>

definition setLastError :: "bool \<Rightarrow> string \<Rightarrow> jsval \<Rightarrow> engine \<Rightarrow> engine" where
  "setLastError known assetKey err st =
     (case map_of (assetSourceRegistry st) assetKey of
        None \<Rightarrow> st
      | Some entry \<Rightarrow>
          if known then
            st\<lparr>assetSourceRegistry :=
                 AList.update assetKey (objSet entry ''lastError'' err) (assetSourceRegistry st)\<rparr>
          else st)"

section \<open>User assets\<close>

text \<open>
  What the engine reads from the background module: the key of the user filters,
  \<^verbatim>\<open>assets.json\<close>'s path and the hidden setting \<^verbatim>\<open>debugAssetsJson\<close>.
\<close>

record background =
  userFiltersPath :: string
  assetsJsonPath :: string
  debugAssetsJson :: bool

definition reIsUserAsset :: "string \<Rightarrow> bool" where
  "reIsUserAsset assetKey \<longleftrightarrow> startsWith assetKey ''user-''"

definition readUserAsset :: "string \<Rightarrow> engine \<Rightarrow> obj" where
  "readUserAsset assetKey st =
     [(''assetKey'', Str assetKey),
      (''content'', (case settingsStorage st assetKey of
                       Some (Str s) \<Rightarrow> Str s
                     | _ \<Rightarrow> Str []))]"

definition saveUserAsset :: "string \<Rightarrow> string \<Rightarrow> engine \<Rightarrow> obj \<times> engine" where
  "saveUserAsset assetKey text st =
     ([(''assetKey'', Str assetKey), (''content'', Str text)],
      st\<lparr>settingsStorage := (settingsStorage st)(assetKey \<mapsto> Str text)\<rparr>)"

text \<open>\<^verbatim>\<open>assets.put(assetKey, content)\<close> at the time \<open>now\<close>.\<close>

definition put :: "rat \<Rightarrow> string \<Rightarrow> string \<Rightarrow> engine \<Rightarrow> obj option \<times> engine" where
  "put now assetKey text st =
     (if reIsUserAsset assetKey then
        (case saveUserAsset assetKey text st of (r, st1) \<Rightarrow> (Some r, st1))
      else assetCacheWrite now assetKey (WString text) st)"

section \<open>Get orchestrator\<close>

text \<open>
  \<^verbatim>\<open>reportBack\<close> of \<^verbatim>\<open>assets.get\<close>. \<open>options\<close> is the object of the options
  \<open>needSourceURL\<close>, \<open>dontCache\<close> and \<open>silent\<close>.
\<close>

definition reportBackGet ::
  "bool \<Rightarrow> obj \<Rightarrow> string \<Rightarrow> string \<Rightarrow> string \<Rightarrow> jsval \<Rightarrow> engine \<Rightarrow> obj \<times> engine" where
  "reportBackGet known options assetKey text u err st =
     (let ds = [(''assetKey'', Str assetKey), (''content'', Str text)];
          ds = (if err \<noteq> Undefined then objSet ds ''error'' err else ds);
          st1 = setLastError known assetKey err st;
          ds = (if truthy (objGet options ''needSourceURL'') then
                  (let ds = (case (u = [], map_of (assetCacheRegistry st1) assetKey) of
                               (True, Some entry) \<Rightarrow>
                                 objSet ds ''sourceURL'' (objGet entry ''remoteURL'')
                             | _ \<Rightarrow> ds)
                   in if reIsExternalPath u then objSet ds ''sourceURL'' (Str u) else ds)
                else ds)
      in (ds, st1))"

text \<open>
  The loop of \<^verbatim>\<open>assets.get\<close> over the content URLs. \<open>err\<close> is the variable
  \<^verbatim>\<open>error\<close>; \<open>filters\<close> and \<open>hasLocalURL\<close> are what the loop reads from
  \<^verbatim>\<open>assetDetails\<close>. The list assembler may not return within \<open>fuel\<close> rounds, and
  then the loop does not either.
\<close>

fun getLoop ::
  "nat \<Rightarrow> platform \<Rightarrow> (string \<Rightarrow> details) \<Rightarrow> rat \<Rightarrow> string \<Rightarrow> obj \<Rightarrow> bool \<Rightarrow> bool \<Rightarrow> bool
    \<Rightarrow> string list \<Rightarrow> jsval \<Rightarrow> engine \<Rightarrow> (obj \<times> engine) option" where
  "getLoop fuel pf ft now assetKey options known filters hasLocalURL [] err st =
     (let st1 = (if map_of (assetSourceRegistry st) assetKey \<noteq> None then
                   registerAssetSource now assetKey
                     [(''error'', Obj [(''time'', Num now), (''error'', err)])] st
                 else st)
      in Some (reportBackGet known options assetKey [] [] err st1))"
| "getLoop fuel pf ft now assetKey options known filters hasLocalURL (contentURL # contentURLs)
     err st =
     (if reIsExternalPath contentURL \<and> hasLocalURL then
        getLoop fuel pf ft now assetKey options known filters hasLocalURL contentURLs err st
      else
        (case (if filters then fetchFilterList fuel pf ft contentURL
               else Some (ft contentURL)) of
           None \<Rightarrow> None
         | Some ds \<Rightarrow>
             (let err1 = (case error ds of None \<Rightarrow> err | Some e \<Rightarrow> Str e)
              in if content ds = [] then
                   getLoop fuel pf ft now assetKey options known filters hasLocalURL
                     contentURLs err1 st
                 else
                   (let st1 =
                          (if reIsExternalPath contentURL
                              \<and> objGet options ''dontCache'' \<noteq> Bool True then
                             registerAssetSource now assetKey [(''error'', Undefined)]
                               (snd (assetCacheWrite now assetKey
                                  (WObject [(''content'', Str (content ds)),
                                            (''url'', Str contentURL),
                                            (''silent'',
                                             Bool (objGet options ''silent'' = Bool True))])
                                  st))
                           else st)
                    in Some (reportBackGet known options assetKey (content ds) contentURL
                               Undefined st1)))))"

text \<open>\<^verbatim>\<open>assets.get(assetKey, options)\<close> at the time \<open>now\<close>.\<close>

definition get ::
  "nat \<Rightarrow> platform \<Rightarrow> background \<Rightarrow> (string \<Rightarrow> details) \<Rightarrow> rat \<Rightarrow> string \<Rightarrow> obj \<Rightarrow> engine
    \<Rightarrow> (obj \<times> engine) option" where
  "get fuel pf bg ft now assetKey options st =
     (if assetKey = userFiltersPath bg then Some (readUserAsset assetKey st, st)
      else
        (let updateReadTime =
               \<not> (startsWith assetKey ''compiled/'' \<or> startsWith assetKey ''selfie/'')
         in case assetCacheRead now assetKey updateReadTime st of
              (ds, st1) \<Rightarrow>
                (case objGet ds ''content'' of
                   Str (c # cs) \<Rightarrow>
                     Some (reportBackGet False options assetKey (c # cs) [] Undefined st1)
                 | _ \<Rightarrow>
                     (let found = map_of (assetSourceRegistry st1) assetKey;
                          known = (found \<noteq> None);
                          assetDetails = (case found of None \<Rightarrow> [] | Some e \<Rightarrow> e);
                          listed = (case objGet assetDetails ''contentURL'' of
                                      Str u \<Rightarrow> Some [u] | Arr us \<Rightarrow> Some us | _ \<Rightarrow> None);
                          byKey = (listed = None \<and> reIsExternalPath assetKey);
                          assetDetails = (if byKey
                                          then objSet assetDetails ''content'' (Str ''filters'')
                                          else assetDetails);
                          st2 = (if byKey \<and> known then
                                   st1\<lparr>assetSourceRegistry :=
                                         AList.update assetKey assetDetails
                                           (assetSourceRegistry st1)\<rparr>
                                 else st1);
                          contentURLs = (case listed of
                                           Some us \<Rightarrow> us
                                         | None \<Rightarrow> if byKey then [assetKey] else []);
                          contentURLs = contentURLs
                            @ (case objGet assetDetails ''cdnURLs'' of Arr us \<Rightarrow> us | _ \<Rightarrow> [])
                      in getLoop fuel pf ft now assetKey options known
                           (objGet assetDetails ''content'' = Str ''filters'')
                           (truthy (objGet assetDetails ''hasLocalURL''))
                           contentURLs (Str ''ENOTFOUND'') st2))))"

text \<open>The background module's values used to exercise the engine.\<close>

definition bgSample :: background where
  "bgSample = \<lparr>userFiltersPath = ''user-filters'', assetsJsonPath = ''/assets/assets.json'',
     debugAssetsJson = False\<rparr>"

section \<open>Remote refresher\<close>

text \<open>
  \<^verbatim>\<open>resourceIsStale(networkDetails, cacheDetails)\<close>: both resource times are numbers
  other than zero and the fetched one is the smaller.
\<close>

definition resourceIsStale :: "details \<Rightarrow> obj \<Rightarrow> bool" where
  "resourceIsStale networkDetails cacheDetails =
     (case resourceTime networkDetails of
        None \<Rightarrow> False
      | Some t \<Rightarrow>
          if t = 0 then False
          else (case objGet cacheDetails ''resourceTime'' of
                  Num c \<Rightarrow> if c = 0 then False else t < c
                | _ \<Rightarrow> False))"

text \<open>
  The shuffle of the CDN URLs: at step \<open>i\<close> the element is swapped with the one at
  \<open>floor(Math.random() * n)\<close>, a number below \<open>n\<close> that the parameter \<open>random\<close> gives.
\<close>

definition shuffleStep :: "(nat \<Rightarrow> nat) \<Rightarrow> nat \<Rightarrow> string list \<Rightarrow> nat \<Rightarrow> string list" where
  "shuffleStep random n cdnURLs i =
     (let j = random i mod n
      in if j = i then cdnURLs else (cdnURLs[j := cdnURLs ! i])[i := cdnURLs ! j])"

definition shuffle :: "(nat \<Rightarrow> nat) \<Rightarrow> string list \<Rightarrow> string list" where
  "shuffle random cdnURLs =
     foldl (shuffleStep random (length cdnURLs)) cdnURLs [0..<length cdnURLs]"

text \<open>The content URLs that \<^verbatim>\<open>getRemote\<close> goes through, in order.\<close>

definition remoteContentURLs :: "(nat \<Rightarrow> nat) \<Rightarrow> bool \<Rightarrow> obj \<Rightarrow> string list" where
  "remoteContentURLs random friendly assetDetails =
     (let contentURLs = (case objGet assetDetails ''contentURL'' of
                           Str u \<Rightarrow> [u] | Arr us \<Rightarrow> us | _ \<Rightarrow> [])
      in case objGet assetDetails ''cdnURLs'' of
           Arr cdn \<Rightarrow>
             if friendly then shuffle random cdn @ contentURLs
             else contentURLs @ shuffle random cdn
         | _ \<Rightarrow> contentURLs)"

text \<open>
  The URL fetched for a content URL: for \<open>assets.json\<close> a URL ending in
  \<open>/assets/assets.json\<close> has this ending replaced by \<^verbatim>\<open>assetsJsonPath\<close>.
\<close>

definition remoteURL :: "background \<Rightarrow> string \<Rightarrow> string \<Rightarrow> string" where
  "remoteURL bg assetKey contentURL =
     (if assetKey = ''assets.json'' \<and> endsWith contentURL ''/assets/assets.json''
      then take (length contentURL - length ''/assets/assets.json'') contentURL
           @ assetsJsonPath bg
      else contentURL)"

definition remoteFetch ::
  "nat \<Rightarrow> platform \<Rightarrow> (string \<Rightarrow> details) \<Rightarrow> bool \<Rightarrow> string \<Rightarrow> details option" where
  "remoteFetch fuel pf ft filters u =
     (if filters then fetchFilterList fuel pf ft u else Some (ft u))"

text \<open>\<^verbatim>\<open>reportBack\<close> of \<^verbatim>\<open>getRemote\<close>.\<close>

definition reportBackRemote ::
  "bool \<Rightarrow> string \<Rightarrow> string \<Rightarrow> string \<Rightarrow> engine \<Rightarrow> obj \<times> engine" where
  "reportBackRemote known assetKey text err st =
     (let ds = [(''assetKey'', Str assetKey), (''content'', Str text)]
      in if err \<noteq> [] then
           (objSet ds ''error'' (Str err), setLastError known assetKey (Str err) st)
         else (ds, setLastError known assetKey Undefined st))"

text \<open>What \<^verbatim>\<open>getRemote\<close> does after the loop, and on a result that is not stale.\<close>

definition remoteFinish ::
  "rat \<Rightarrow> string \<Rightarrow> bool \<Rightarrow> obj \<Rightarrow> jsval \<Rightarrow> bool \<Rightarrow> engine \<Rightarrow> obj \<times> engine" where
  "remoteFinish now assetKey known cacheDetails err stale st =
     (if err \<noteq> Undefined then
        reportBackRemote known assetKey [] ''ENOTFOUND''
          (registerAssetSource now assetKey
             [(''error'', Obj [(''time'', Num now), (''error'', err)])] st)
      else
        reportBackRemote known assetKey [] []
          (if stale then
             assetCacheSetDetails assetKey
               [(''writeTime'', objGet cacheDetails ''resourceTime'')] st
           else st))"

definition remoteSuccess ::
  "platform \<Rightarrow> rat \<Rightarrow> string \<Rightarrow> bool \<Rightarrow> bool \<Rightarrow> string \<Rightarrow> details \<Rightarrow> engine \<Rightarrow> obj \<times> engine" where
  "remoteSuccess pf now assetKey known filters contentURL result st =
     (let st1 = snd (assetCacheWrite now assetKey
                  (WObject [(''content'', Str (content result)),
                            (''url'', Str contentURL),
                            (''resourceTime'',
                             Num (case resourceTime result of None \<Rightarrow> 0 | Some t \<Rightarrow> t))])
                  st);
          st2 = (if filters then
                   assetCacheSetDetails assetKey
                     (extractMetadataFromList (dateGetTime pf) (content result)
                        [''Last-Modified'', ''Expires'', ''Diff-Name'', ''Diff-Path'',
                         ''Diff-Expires''])
                     st1
                 else st1);
          st3 = registerAssetSource now assetKey
                  [(''birthtime'', Undefined), (''error'', Undefined)] st2
      in reportBackRemote known assetKey (content result) [] st3)"

text \<open>
  The loop of \<^verbatim>\<open>getRemote\<close> over the content URLs, with the variables \<^verbatim>\<open>error\<close>
  and \<^verbatim>\<open>stale\<close>. \<open>cacheDetails\<close> is the entry of the cache registry read before the
  loop, which nothing changes before the loop is left.
\<close>

fun remoteLoop ::
  "nat \<Rightarrow> platform \<Rightarrow> background \<Rightarrow> (string \<Rightarrow> details) \<Rightarrow> rat \<Rightarrow> string \<Rightarrow> bool \<Rightarrow> bool
    \<Rightarrow> obj \<Rightarrow> string list \<Rightarrow> jsval \<Rightarrow> bool \<Rightarrow> engine \<Rightarrow> (obj \<times> engine) option" where
  "remoteLoop fuel pf bg ft now assetKey known filters cacheDetails [] err stale st =
     Some (remoteFinish now assetKey known cacheDetails err stale st)"
| "remoteLoop fuel pf bg ft now assetKey known filters cacheDetails (contentURL # contentURLs)
     err stale st =
     (if \<not> reIsExternalPath contentURL then
        remoteLoop fuel pf bg ft now assetKey known filters cacheDetails contentURLs err stale st
      else
        (case remoteFetch fuel pf ft filters (remoteURL bg assetKey contentURL) of
           None \<Rightarrow> None
         | Some result \<Rightarrow>
             if \<not> stringIsNotEmpty (content result) then
               remoteLoop fuel pf bg ft now assetKey known filters cacheDetails contentURLs
                 (if statusCode result = Some 0 then Str ''network error''
                  else (case statusText result of None \<Rightarrow> Undefined | Some s \<Rightarrow> Str s))
                 stale st
             else if resourceIsStale result cacheDetails then
               remoteLoop fuel pf bg ft now assetKey known filters cacheDetails contentURLs
                 Undefined True st
             else
               Some (remoteSuccess pf now assetKey known filters
                       (remoteURL bg assetKey contentURL) result st)))"

text \<open>
  \<^verbatim>\<open>getRemote(assetKey)\<close> at the time \<open>now\<close>; the fetches use the mode
  \<^verbatim>\<open>remoteServerFriendly\<close> of the state, which \<open>ft\<close> is given.
\<close>

definition getRemote ::
  "nat \<Rightarrow> platform \<Rightarrow> background \<Rightarrow> (bool \<Rightarrow> string \<Rightarrow> details) \<Rightarrow> (nat \<Rightarrow> nat) \<Rightarrow> rat \<Rightarrow> string
    \<Rightarrow> engine \<Rightarrow> (obj \<times> engine) option" where
  "getRemote fuel pf bg ft random now assetKey st =
     (let found = map_of (assetSourceRegistry st) assetKey;
          assetDetails = (case found of None \<Rightarrow> [] | Some e \<Rightarrow> e);
          cacheDetails = (case assetCacheGetDetails assetKey st of None \<Rightarrow> [] | Some e \<Rightarrow> e)
      in remoteLoop fuel pf bg (ft (remoteServerFriendly st)) now assetKey (found \<noteq> None)
           (objGet assetDetails ''content'' = Str ''filters'') cacheDetails
           (remoteContentURLs random (remoteServerFriendly st) assetDetails)
           Undefined False st)"

text \<open>
  A content URL whose fetch gives content that is stale against the cached entry: both
  resource times are positive and the fetched one is the smaller.
\<close>

definition yieldsStale ::
  "nat \<Rightarrow> platform \<Rightarrow> background \<Rightarrow> (string \<Rightarrow> details) \<Rightarrow> string \<Rightarrow> bool \<Rightarrow> obj \<Rightarrow> string
    \<Rightarrow> bool" where
  "yieldsStale fuel pf bg ft assetKey filters cacheDetails contentURL \<longleftrightarrow>
     (case remoteFetch fuel pf ft filters (remoteURL bg assetKey contentURL) of
        None \<Rightarrow> False
      | Some result \<Rightarrow>
          content result \<noteq> []
          \<and> (case (resourceTime result, objGet cacheDetails ''resourceTime'') of
                (Some t, Num c) \<Rightarrow> 0 < t \<and> 0 < c \<and> t < c
              | _ \<Rightarrow> False))"

text \<open>A server that answers every URL with a list older than the cached one.\<close>

definition staleNet :: "string \<Rightarrow> details" where
  "staleNet u =
     \<lparr>url = u, content = ''||old^'', error = None, resourceTime = Some 1000,
      statusCode = Some 200, statusText = Some ''OK''\<rparr>"

section \<open>Update scheduler\<close>

definition MS_PER_DAY :: rat where
  "MS_PER_DAY = 24 * (60 * 60 * 1000)"

definition EXPIRES_DEFAULT :: rat where
  "EXPIRES_DEFAULT = 7"

definition updaterAssetDelayDefault :: rat where
  "updaterAssetDelayDefault = 120000"

text \<open>\<^verbatim>\<open>getUpdateAfterTime(assetKey, diff)\<close>, in milliseconds.\<close>

definition getUpdateAfterTime :: "string \<Rightarrow> bool \<Rightarrow> engine \<Rightarrow> rat" where
  "getUpdateAfterTime assetKey diff st =
     (let fromSource =
            (case map_of (assetSourceRegistry st) assetKey of
               None \<Rightarrow> EXPIRES_DEFAULT * MS_PER_DAY
             | Some entry \<Rightarrow>
                 (case objGet entry ''updateAfter'' of
                    Num d \<Rightarrow> d * MS_PER_DAY
                  | _ \<Rightarrow> EXPIRES_DEFAULT * MS_PER_DAY))
      in case map_of (assetCacheRegistry st) assetKey of
           None \<Rightarrow> fromSource
         | Some entry \<Rightarrow>
             (case (diff, objGet entry ''diffExpires'') of
                (True, Num d) \<Rightarrow> d * MS_PER_DAY
              | _ \<Rightarrow>
                  (case objGet entry ''expires'' of
                     Num d \<Rightarrow> d * MS_PER_DAY
                   | _ \<Rightarrow> fromSource)))"

text \<open>
  \<^verbatim>\<open>getWriteTime(assetKey)\<close>. A write time is a number whenever the engine has set
  it; anything else is read as 0.
\<close>

definition getWriteTime :: "string \<Rightarrow> engine \<Rightarrow> rat" where
  "getWriteTime assetKey st =
     (case map_of (assetCacheRegistry st) assetKey of
        None \<Rightarrow> 0
      | Some entry \<Rightarrow> (case objGet entry ''writeTime'' of Num t \<Rightarrow> t | _ \<Rightarrow> 0))"

text \<open>
  \<^verbatim>\<open>getUpdateCandidates\<close>. \<open>observers topic details\<close> is what the observers make
  \<^verbatim>\<open>fireNotification\<close> return; \<open>startTime\<close> is \<^verbatim>\<open>assetCacheRegistryStartTime\<close>. The
  loop carries the candidates, the keys of the cached assets no longer in use and the
  state; those assets are removed once the loop and the sort are over, as the removal
  waits for the registry first. The keys of the source registry are taken in the order
  they were registered, which is the order of \<^verbatim>\<open>for ... in\<close> for keys that are
  not array indices. The sort compares the write times of the cache entries; an entry
  without a numeric write time is sorted as one written at 0, where the comparison of
  the source gives no order.
\<close>

definition candidateStep ::
  "(string \<Rightarrow> obj \<Rightarrow> jsval) \<Rightarrow> rat \<Rightarrow> dict \<Rightarrow> string list \<times> string list \<times> engine
    \<Rightarrow> string \<times> obj \<Rightarrow> string list \<times> string list \<times> engine" where
  "candidateStep observers startTime cacheDict acc ke =
     (case (acc, ke) of ((toUpdate, unused, st), (assetKey, assetEntry)) \<Rightarrow>
        if objGet assetEntry ''hasRemoteURL'' \<noteq> Bool True then (toUpdate, unused, st)
        else if assetKey \<in> set (updaterFetched st) then (toUpdate, unused, st)
        else
          (let ds = [(''assetKey'', Str assetKey), (''type'', objGet assetEntry ''content'')];
               st1 = fireNotification ''before-asset-updated'' ds st
           in if observers ''before-asset-updated'' ds = Bool True
              then (toUpdate @ [assetKey], unused, st1)
              else (case map_of cacheDict assetKey of
                      None \<Rightarrow> (toUpdate, unused, st1)
                    | Some cacheEntry \<Rightarrow>
                        (case objGet cacheEntry ''readTime'' of
                           Num t \<Rightarrow> if t < startTime
                                    then (toUpdate, unused @ [assetKey], st1)
                                    else (toUpdate, unused, st1)
                         | _ \<Rightarrow> (toUpdate, unused, st1)))))"

definition sortTime :: "dict \<Rightarrow> string \<Rightarrow> rat" where
  "sortTime cacheDict assetKey =
     (case map_of cacheDict assetKey of
        None \<Rightarrow> 0
      | Some entry \<Rightarrow> (case objGet entry ''writeTime'' of Num t \<Rightarrow> t | _ \<Rightarrow> 0))"

definition getUpdateCandidates ::
  "(string \<Rightarrow> obj \<Rightarrow> jsval) \<Rightarrow> rat \<Rightarrow> engine \<Rightarrow> string list \<times> engine" where
  "getUpdateCandidates observers startTime st =
     (case foldl (candidateStep observers startTime (assetCacheRegistry st)) ([], [], st)
             (assetSourceRegistry st) of
        (toUpdate, unused, st1) \<Rightarrow>
          (sort_key (sortTime (assetCacheRegistry st)) toUpdate,
           foldl (\<lambda>s k. assetCacheRemove (PatString k) s) st1 unused))"

text \<open>\<^verbatim>\<open>updateDone\<close>.\<close>

definition updateDone :: "engine \<Rightarrow> engine" where
  "updateDone st =
     fireNotification ''after-assets-updated'' [(''assetKeys'', Arr (updaterUpdated st))]
       (st\<lparr>updaterFetched := [], updaterUpdated := [], updaterStatus := None,
           updaterAssetDelay := updaterAssetDelayDefault\<rparr>)"

text \<open>
  \<^verbatim>\<open>updateAssetSourceRegistry(json, silent)\<close> at the time \<open>now\<close>. \<open>jsonParse\<close> is
  \<^verbatim>\<open>JSON.parse\<close> where it gives an object of entries, and nothing where it throws or
  gives something else.
\<close>

definition defaultListset :: "dict \<Rightarrow> string list" where
  "defaultListset newDict =
     map fst (filter (\<lambda>(k, e). objGet e ''content'' = Str ''filters''
                                \<and> objGet e ''off'' = Undefined) newDict)"

definition dropObsolete :: "dict \<Rightarrow> engine \<Rightarrow> string \<times> obj \<Rightarrow> engine" where
  "dropObsolete newDict st ke =
     (case ke of (assetKey, entry) \<Rightarrow>
        if map_of newDict assetKey = None \<and> objGet entry ''submitter'' = Undefined then
          (assetCacheRemove (PatString assetKey) st)
            \<lparr>assetSourceRegistry :=
               AList.delete assetKey (assetSourceRegistry (assetCacheRemove (PatString assetKey) st))\<rparr>
        else st)"

definition addSource :: "rat \<Rightarrow> bool \<Rightarrow> engine \<Rightarrow> string \<times> obj \<Rightarrow> engine" where
  "addSource now silent st ke =
     (case ke of (assetKey, entry) \<Rightarrow>
        registerAssetSource now assetKey entry
          (if map_of (assetSourceRegistry st) assetKey = None \<and> \<not> silent then
             fireNotification ''builtin-asset-source-added''
               [(''assetKey'', Str assetKey), (''entry'', Obj entry)] st
           else st))"

definition updateAssetSourceRegistry ::
  "(string \<Rightarrow> dict option) \<Rightarrow> rat \<Rightarrow> string \<Rightarrow> bool \<Rightarrow> engine \<Rightarrow> engine" where
  "updateAssetSourceRegistry jsonParse now json silent st =
     (case jsonParse json of
        None \<Rightarrow> st
      | Some parsed \<Rightarrow>
          (let newDict =
                 (case map_of parsed ''assets.json'' of
                    None \<Rightarrow> parsed
                  | Some e \<Rightarrow>
                      AList.update ''assets.json''
                        (objSet e ''defaultListset'' (Arr (defaultListset parsed))) parsed);
               oldDict = assetSourceRegistry st;
               st1 = fireNotification ''assets.json-updated''
                       [(''newDict'', Obj (map (\<lambda>(k, e). (k, Obj e)) newDict)),
                        (''oldDict'', Obj (map (\<lambda>(k, e). (k, Obj e)) oldDict))] st;
               st2 = foldl (dropObsolete newDict) st1 oldDict;
               st3 = foldl (addSource now silent) st2 newDict
           in saveAssetSourceRegistry False st3))"

text \<open>
  \<^verbatim>\<open>updateNext\<close> at the time \<open>now\<close>. \<open>toHardUpdate\<close> keeps, in their order, the
  candidates whose write time plus update period is not greater than \<open>now\<close>; the one
  refreshed is taken from its end by \<^verbatim>\<open>pop\<close>.
\<close>

definition toHardUpdate :: "rat \<Rightarrow> string list \<Rightarrow> engine \<Rightarrow> string list" where
  "toHardUpdate now toUpdate st =
     filter (\<lambda>assetKey. \<not> (getWriteTime assetKey st + getUpdateAfterTime assetKey False st > now))
       toUpdate"

definition addFetched :: "string \<Rightarrow> string list \<Rightarrow> string list" where
  "addFetched assetKey fetched = (if assetKey \<in> set fetched then fetched else fetched @ [assetKey])"

definition detailsReport :: "string \<Rightarrow> details \<Rightarrow> obj" where
  "detailsReport assetKey ds =
     [(''url'', Str (url ds)), (''content'', Str (content ds)),
      (''error'', (case error ds of None \<Rightarrow> Undefined | Some e \<Rightarrow> Str e)),
      (''assetKey'', Str assetKey)]"

definition updateNext ::
  "nat \<Rightarrow> platform \<Rightarrow> background \<Rightarrow> (bool \<Rightarrow> string \<Rightarrow> details) \<Rightarrow> (nat \<Rightarrow> nat)
    \<Rightarrow> (string \<Rightarrow> obj \<Rightarrow> jsval) \<Rightarrow> (string \<Rightarrow> dict option) \<Rightarrow> rat \<Rightarrow> rat \<Rightarrow> engine
    \<Rightarrow> engine option" where
  "updateNext fuel pf bg ft random observers jsonParse startTime now st =
     (case getUpdateCandidates observers startTime st of
        (toUpdate, st1) \<Rightarrow>
          (if toHardUpdate now toUpdate st1 = [] then Some (updateDone st1)
           else
               (let assetKey = last (toHardUpdate now toUpdate st1);
                    st2 = st1\<lparr>updaterFetched := addFetched assetKey (updaterFetched st1),
                              remoteServerFriendly := updaterAuto st1\<rparr>
                in case (if assetKey \<noteq> ''assets.json'' \<or> \<not> debugAssetsJson bg then
                           getRemote fuel pf bg ft random now assetKey st2
                         else Some (detailsReport ''assets.json''
                                      (ft (remoteServerFriendly st2) (assetsJsonPath bg)),
                                    st2)) of
                     None \<Rightarrow> None
                   | Some (result, st3) \<Rightarrow>
                       (let st4 = st3\<lparr>remoteServerFriendly := False\<rparr>;
                            st5 =
                              (if truthy (objGet result ''error'') then
                                 fireNotification ''asset-update-failed''
                                   [(''assetKey'', objGet result ''assetKey'')] st4
                               else
                                 (let st' = st4\<lparr>updaterUpdated := updaterUpdated st4
                                             @ (case objGet result ''assetKey'' of
                                                  Str k \<Rightarrow> [k] | _ \<Rightarrow> [])\<rparr>
                                  in case (objGet result ''assetKey'', objGet result ''content'') of
                                       (Str k, Str (c # cs)) \<Rightarrow>
                                         if k = ''assets.json'' then
                                           updateAssetSourceRegistry jsonParse now (c # cs)
                                             False st'
                                         else st'
                                     | _ \<Rightarrow> st'))
                        in Some (st5\<lparr>updaterTimer := Some (updaterAssetDelay st5)\<rparr>)))))"

text \<open>
  A state used to exercise the updater: two lists, both written long ago, \<open>older\<close>
  before \<open>newer\<close>, and observers that want every list kept up to date.
\<close>

definition twoLists :: engine where
  "twoLists =
     sampleEngine
       \<lparr>assetCacheRegistry :=
          [(''newer'', [(''readTime'', Num 9000), (''writeTime'', Num 2000),
                       (''resourceTime'', Num 0)]),
           (''older'', [(''readTime'', Num 9000), (''writeTime'', Num 1000),
                       (''resourceTime'', Num 0)])],
        assetSourceRegistry :=
          [(''newer'', [(''content'', Str ''filters''),
                       (''contentURL'', Arr [''https://h/newer.txt'']),
                       (''hasLocalURL'', Bool False), (''hasRemoteURL'', Bool True)]),
           (''older'', [(''content'', Str ''filters''),
                       (''contentURL'', Arr [''https://h/older.txt'']),
                       (''hasLocalURL'', Bool False), (''hasRemoteURL'', Bool True)])],
        cacheStorage := [''cache/newer'' \<mapsto> Text ''||n^'', ''cache/older'' \<mapsto> Text ''||o^'']\<rparr>"

definition keenObservers :: "string \<Rightarrow> obj \<Rightarrow> jsval" where
  "keenObservers topic ds = (if topic = ''before-asset-updated'' then Bool True else Undefined)"

section \<open>Verified properties\<close>

subsection \<open>Metadata extractor\<close>

lemma objGet_objSet: "objGet (objSet ob k v) k' = (if k' = k then v else objGet ob k')"
  by (simp add: objGet_def objSet_def update_conv')

lemma extractField_raw:
  assumes "\<forall>k. rawValue (objGet out k)"
  shows "rawValue (objGet (extractField head out field) k)"
  using assms
  by (auto simp: extractField_def Let_def objGet_objSet rawValue_def split: option.splits jsval.splits)

lemma foldl_extractField_raw:
  "\<forall>k. rawValue (objGet out k) \<Longrightarrow> rawValue (objGet (foldl (extractField head) out names) k)"
proof (induction names arbitrary: out k)
  case Nil
  then show ?case by simp
next
  case (Cons f fs)
  have "\<forall>k. rawValue (objGet (extractField head out f) k)"
    using Cons.prems extractField_raw by blast
  then show ?case using Cons.IH by simp
qed

lemma extractFields_raw: "rawValue (objGet (extractFields body names) k)"
  unfolding extractFields_def
  by (rule foldl_extractField_raw) (simp add: objGet_def rawValue_def)

lemma expires_of_result:
  "objGet (extractMetadataFromList dateTime body names) ''expires'' =
     (case objGet (extractFields body names) ''expires'' of
        Str v \<Rightarrow> Num (max (parseExpires v) (1 / 2))
      | w \<Rightarrow> w)"
  using extractFields_raw [of body names "''expires''"]
  by (auto simp: extractMetadataFromList_def preprocessDiffExpires_def preprocessExpires_def
      preprocessLastModified_def objGet_objSet rawValue_def split: jsval.splits)

lemma diffExpires_of_result:
  "objGet (extractMetadataFromList dateTime body names) ''diffExpires'' =
     (case objGet (extractFields body names) ''diffExpires'' of
        Str v \<Rightarrow> Num (max (parseExpires v) (1 / 4))
      | w \<Rightarrow> w)"
  using extractFields_raw [of body names "''diffExpires''"]
  by (auto simp: extractMetadataFromList_def preprocessDiffExpires_def preprocessExpires_def
      preprocessLastModified_def objGet_objSet rawValue_def split: jsval.splits)

lemma parseExpires_2d: "parseExpires ''2d'' = 2" by code_simp
lemma parseExpires_12h: "parseExpires ''12h'' = 1 / 2" by code_simp
lemma parseExpires_garbage: "parseExpires ''garbage'' = 0" by code_simp

text \<open>
  Claim C5. \<open>parseExpires\<close> gives 2 for \<open>2d\<close>, \<open>ceil(12/6)/4 = 0.5\<close> for \<open>12h\<close> and 0
  for \<open>garbage\<close>. In the result of \<open>extractMetadataFromList\<close> an \<open>expires\<close> header
  found in the list becomes the larger of its parsed value and half a day, a
  \<open>diffExpires\<close> header the larger of its parsed value and a quarter of a day, so a
  number under \<open>expires\<close> is at least 0.5 and one under \<open>diffExpires\<close> at least 0.25.
\<close>

theorem parseExpires_values_and_floors:
  "parseExpires ''2d'' = 2
   \<and> parseExpires ''12h'' = of_int \<lceil>12 / 6 :: rat\<rceil> / 4
   \<and> parseExpires ''12h'' = 1 / 2
   \<and> parseExpires ''garbage'' = 0
   \<and> (\<forall>dateTime body names v.
         objGet (extractFields body names) ''expires'' = Str v \<longrightarrow>
           objGet (extractMetadataFromList dateTime body names) ''expires''
             = Num (max (parseExpires v) (1 / 2)))
   \<and> (\<forall>dateTime body names v.
         objGet (extractFields body names) ''diffExpires'' = Str v \<longrightarrow>
           objGet (extractMetadataFromList dateTime body names) ''diffExpires''
             = Num (max (parseExpires v) (1 / 4)))
   \<and> (\<forall>dateTime body names e.
         objGet (extractMetadataFromList dateTime body names) ''expires'' = Num e \<longrightarrow>
           1 / 2 \<le> e)
   \<and> (\<forall>dateTime body names e.
         objGet (extractMetadataFromList dateTime body names) ''diffExpires'' = Num e \<longrightarrow>
           1 / 4 \<le> e)"
proof -
  have a: "1 / 2 \<le> e"
    if "objGet (extractMetadataFromList dateTime body names) ''expires'' = Num e"
    for dateTime body names e
    using that extractFields_raw [of body names "''expires''"]
    by (auto simp: expires_of_result rawValue_def split: jsval.splits)
  have b: "1 / 4 \<le> e"
    if "objGet (extractMetadataFromList dateTime body names) ''diffExpires'' = Num e"
    for dateTime body names e
    using that extractFields_raw [of body names "''diffExpires''"]
    by (auto simp: diffExpires_of_result rawValue_def split: jsval.splits)
  have c: "of_int \<lceil>12 / 6 :: rat\<rceil> / 4 = (1 / 2 :: rat)" by simp
  have d: "objGet (extractMetadataFromList dateTime body names) ''expires''
             = Num (max (parseExpires v) (1 / 2))"
    if "objGet (extractFields body names) ''expires'' = Str v"
    for dateTime body names v
    using that by (simp add: expires_of_result)
  have e: "objGet (extractMetadataFromList dateTime body names) ''diffExpires''
             = Num (max (parseExpires v) (1 / 4))"
    if "objGet (extractFields body names) ''diffExpires'' = Str v"
    for dateTime body names v
    using that by (simp add: diffExpires_of_result)
  show ?thesis
    unfolding c
    using a b d e parseExpires_2d parseExpires_12h parseExpires_garbage by blast
qed

lemma raw_sample: "extractFields headerSample [''Expires'', ''Diff-Expires'']
   = [(''expires'', Str ''6h''), (''diffExpires'', Str ''1h'')]" by code_simp
lemma pe6: "parseExpires ''6h'' = 1/4" by code_simp
lemma pe1: "parseExpires ''1h'' = 1/4" by code_simp

theorem parseExpires_values_and_floors_witness:
  "objGet (extractFields headerSample [''Expires'', ''Diff-Expires'']) ''expires'' = Str ''6h''
   \<and> parseExpires ''6h'' = 1 / 4
   \<and> objGet (extractMetadataFromList (\<lambda>_. None) headerSample [''Expires'', ''Diff-Expires''])
        ''expires'' = Num (1 / 2)
   \<and> objGet (extractFields headerSample [''Expires'', ''Diff-Expires'']) ''diffExpires'' = Str ''1h''
   \<and> objGet (extractMetadataFromList (\<lambda>_. None) headerSample [''Expires'', ''Diff-Expires''])
        ''diffExpires'' = Num (1 / 4)"
proof -
  have r1: "objGet (extractFields headerSample [''Expires'', ''Diff-Expires'']) ''expires'' = Str ''6h''"
    by (simp add: raw_sample objGet_def)
  have r2: "objGet (extractFields headerSample [''Expires'', ''Diff-Expires'']) ''diffExpires'' = Str ''1h''"
    by (simp add: raw_sample objGet_def)
  from parseExpires_values_and_floors r1 r2 show ?thesis
    by (simp add: pe6 pe1)
qed

lemma matchExpires_digits_unit:
  assumes "ds \<noteq> []" "\<forall>c \<in> set ds. isDigit c" "\<not> isDigit u" "\<not> isWhiteSpace u"
  shows "matchExpires (ds @ [u]) = Some (ds, if u \<in> set ''dhDH'' then Some u else None)"
proof -
  obtain d ds' where ds: "ds = d # ds'" using assms(1) by (cases ds) auto
  have d: "isDigit d" using assms(2) ds by simp
  have t: "takeWhile isDigit (ds @ [u]) = ds" using assms(2,3) by (simp add: takeWhile_append2)
  have dr: "dropWhile isDigit (ds @ [u]) = [u]" using assms(2,3) by (simp add: dropWhile_append2)
  have "dropWhile (\<lambda>c. \<not> isDigit c) (ds @ [u]) = ds @ [u]" using d ds by simp
  moreover have "ds @ [u] = d # (ds' @ [u])" using ds by simp
  ultimately show ?thesis
    unfolding matchExpires_def using t dr assms(4)
    by (simp del: set_simps)
qed

text \<open>
  Claim C10. The unit letter is matched in either case, but the conversion of hours to
  days compares the matched letter with a lower-case \<open>h\<close>: \<open>12H\<close> gives 12, not 0.5,
  and so for every run of digits followed by \<open>H\<close>, while a lower-case \<open>h\<close> converts.
\<close>

theorem parseExpires_unit_case:
  "matchExpires ''12H'' = Some (''12'', Some CHR ''H'')
   \<and> parseExpires ''12H'' = 12
   \<and> parseExpires ''12H'' \<noteq> 1 / 2
   \<and> parseExpires ''12h'' = 1 / 2
   \<and> (\<forall>ds. ds \<noteq> [] \<and> (\<forall>c \<in> set ds. isDigit c) \<longrightarrow>
         matchExpires (ds @ ''H'') = Some (ds, Some CHR ''H'')
         \<and> matchExpires (ds @ ''h'') = Some (ds, Some CHR ''h'')
         \<and> parseExpires (ds @ ''H'') = of_nat (parseInt10 ds)
         \<and> parseExpires (ds @ ''h'') = of_int \<lceil>of_nat (parseInt10 ds) / (6 :: rat)\<rceil> / 4)"
proof -
  have g: "matchExpires (ds @ ''H'') = Some (ds, Some CHR ''H'')
         \<and> matchExpires (ds @ ''h'') = Some (ds, Some CHR ''h'')"
    if "ds \<noteq> [] \<and> (\<forall>c \<in> set ds. isDigit c)" for ds
    using that by (simp add: matchExpires_digits_unit isDigit_def isWhiteSpace_def)
  have h: "parseExpires (ds @ ''H'') = of_nat (parseInt10 ds)
         \<and> parseExpires (ds @ ''h'') = of_int \<lceil>of_nat (parseInt10 ds) / (6 :: rat)\<rceil> / 4"
    if "ds \<noteq> [] \<and> (\<forall>c \<in> set ds. isDigit c)" for ds
    using g [OF that] by (simp add: parseExpires_def Let_def)
  have e1: "matchExpires ''12H'' = Some (''12'', Some CHR ''H'')" by code_simp
  have e2: "parseExpires ''12H'' = 12" by code_simp
  have e3: "parseExpires ''12H'' \<noteq> 1 / 2" unfolding e2 by simp
  show ?thesis
    using g h e1 e2 e3 parseExpires_12h by blast
qed

theorem parseExpires_unit_case_witness:
  "parseExpires ''48H'' = 48 \<and> parseExpires ''48h'' = 2"
proof -
  have p: "''48'' \<noteq> [] \<and> (\<forall>c \<in> set ''48''. isDigit c)" by (simp add: isDigit_def)
  have q: "parseInt10 ''48'' = 48" by code_simp
  have "parseExpires (''48'' @ ''H'') = of_nat (parseInt10 ''48'')
         \<and> parseExpires (''48'' @ ''h'') = of_int \<lceil>of_nat (parseInt10 ''48'') / (6 :: rat)\<rceil> / 4"
    using parseExpires_unit_case p by blast
  then show ?thesis unfolding q by simp
qed

subsection \<open>Fetcher\<close>

lemma of_char_digit: "d < 10 \<Longrightarrow> (of_char (''0123456789'' ! d) :: nat) = 48 + d"
proof -
  assume "d < 10"
  then have "d \<in> {0, 1, 2, 3, 4, 5, 6, 7, 8, 9}" by auto
  then show ?thesis by auto
qed

lemma parseInt10_showNat: "parseInt10 (showNat n) = n"
proof (induction n rule: showNat.induct)
  case (1 n)
  show ?case
  proof (cases "n < 10")
    case True
    then show ?thesis by (subst showNat.simps) (simp add: parseInt10_def of_char_digit)
  next
    case False
    have m: "n mod 10 < 10" by simp
    have "parseInt10 (showNat n) = 10 * parseInt10 (showNat (n div 10)) + n mod 10"
      using False of_char_digit [OF m] by (subst showNat.simps) (simp add: parseInt10_def)
    then show ?thesis using 1 False by simp
  qed
qed

lemma startsWith_trim_Nil: "\<not> startsWith (trim []) ''<''"
  by (simp add: trim_def startsWith_def)

lemma checkText_html:
  assumes "startsWith (trim (content d)) ''<''" "endsWith (trim (content d)) ''>''"
  shows "content (checkText (Resolved d)) = []"
    and "error (checkText (Resolved d)) = Some ''assets.fetchText(): Not a text file''"
  using assms startsWith_trim_Nil
  by (auto simp: checkText_def Let_def stringIsNotEmpty_def)

lemma checkText_not_html:
  assumes "\<not> (startsWith (trim (content d)) ''<'' \<and> endsWith (trim (content d)) ''>'')"
  shows "checkText (Resolved d) = d"
proof (cases "content d = []")
  case True
  then have "d\<lparr>content := []\<rparr> = d" by simp
  then show ?thesis using assms True startsWith_trim_Nil
    by (simp add: checkText_def Let_def stringIsNotEmpty_def)
next
  case False
  then show ?thesis using assms
    by (auto simp: checkText_def Let_def stringIsNotEmpty_def)
qed

text \<open>
  Claim C6. When the trimmed content of the response starts with \<open><\<close> and ends with
  \<open>>\<close>, \<open>fetchText\<close> returns empty content and the error
  \<open>assets.fetchText(): Not a text file\<close>. When it starts with \<open><\<close> and does not end
  with \<open>>\<close>, as \<open><!\<close> does, the details come back as fetched, content included,
  with the caller's URL.
\<close>

theorem fetchText_html_detection:
  "(\<forall>getURL friendly bypass now fetch u d.
      fetch (actualUrl getURL friendly bypass now u) = Resolved d
      \<and> startsWith (trim (content d)) ''<'' \<and> endsWith (trim (content d)) ''>'' \<longrightarrow>
        content (fetchText getURL friendly bypass now fetch u) = []
        \<and> error (fetchText getURL friendly bypass now fetch u)
            = Some ''assets.fetchText(): Not a text file'')
   \<and> (\<forall>getURL friendly bypass now fetch u d.
      fetch (actualUrl getURL friendly bypass now u) = Resolved d
      \<and> startsWith (trim (content d)) ''<'' \<and> \<not> endsWith (trim (content d)) ''>'' \<longrightarrow>
        fetchText getURL friendly bypass now fetch u = d\<lparr>url := u\<rparr>
        \<and> content (fetchText getURL friendly bypass now fetch u) = content d)
   \<and> startsWith (trim ''<!'') ''<'' \<and> \<not> endsWith (trim ''<!'') ''>''"
proof -
  have a: "content (fetchText getURL friendly bypass now fetch u) = []
        \<and> error (fetchText getURL friendly bypass now fetch u)
            = Some ''assets.fetchText(): Not a text file''"
    if "fetch (actualUrl getURL friendly bypass now u) = Resolved d
      \<and> startsWith (trim (content d)) ''<'' \<and> endsWith (trim (content d)) ''>''"
    for getURL friendly bypass now fetch u d
    using that checkText_html [of d] by (simp add: fetchText_def)
  have b: "fetchText getURL friendly bypass now fetch u = d\<lparr>url := u\<rparr>
        \<and> content (fetchText getURL friendly bypass now fetch u) = content d"
    if "fetch (actualUrl getURL friendly bypass now u) = Resolved d
      \<and> startsWith (trim (content d)) ''<'' \<and> \<not> endsWith (trim (content d)) ''>''"
    for getURL friendly bypass now fetch u d
    using that checkText_not_html [of d] by (simp add: fetchText_def)
  have c: "startsWith (trim ''<!'') ''<'' \<and> \<not> endsWith (trim ''<!'') ''>''"
    by code_simp
  show ?thesis using a b c by blast
qed

theorem fetchText_html_detection_witness:
  "content (fetchText (\<lambda>u. u) True False 0 (\<lambda>u. Resolved htmlPage) ''https://h/e.txt'') = []
   \<and> error (fetchText (\<lambda>u. u) True False 0 (\<lambda>u. Resolved htmlPage) ''https://h/e.txt'')
       = Some ''assets.fetchText(): Not a text file''
   \<and> content (fetchText (\<lambda>u. u) True False 0 (\<lambda>u. Resolved openTag) ''https://h/e.txt'')
       = ''<!''"
proof -
  have h: "startsWith (trim (content htmlPage)) ''<'' \<and> endsWith (trim (content htmlPage)) ''>''"
    by code_simp
  have o: "startsWith (trim (content openTag)) ''<'' \<and> \<not> endsWith (trim (content openTag)) ''>''"
    by code_simp
  have c: "content openTag = ''<!''" by (simp add: openTag_def)
  let ?f = "\<lambda>d. fetchText (\<lambda>u. u) True False 0 (\<lambda>u. Resolved d) ''https://h/e.txt''"
  have A: "content (fetchText getURL friendly bypass now fetch u) = []
        \<and> error (fetchText getURL friendly bypass now fetch u)
            = Some ''assets.fetchText(): Not a text file''"
    if "fetch (actualUrl getURL friendly bypass now u) = Resolved d
      \<and> startsWith (trim (content d)) ''<'' \<and> endsWith (trim (content d)) ''>''"
    for getURL friendly bypass now fetch u d
    using that fetchText_html_detection by blast
  have B: "content (fetchText getURL friendly bypass now fetch u) = content d"
    if "fetch (actualUrl getURL friendly bypass now u) = Resolved d
      \<and> startsWith (trim (content d)) ''<'' \<and> \<not> endsWith (trim (content d)) ''>''"
    for getURL friendly bypass now fetch u d
    using that fetchText_html_detection by blast
  have 1: "content (?f htmlPage) = []
      \<and> error (?f htmlPage) = Some ''assets.fetchText(): Not a text file''"
    by (rule A [where d = htmlPage]) (simp add: h)
  have 2: "content (?f openTag) = content openTag"
    by (rule B [where d = openTag]) (simp add: o)
  show ?thesis using 1 2 c by simp
qed

text \<open>
  Claim C8. For an external URL and with the remote-server-friendly mode off, the URL
  requested is the caller's URL, then \<open>?\<close> or \<open>&\<close>, then \<open>_=\<close> and the decimal
  digits of the token: \<open>floor(now/1000) mod 86413\<close> when the setting
  \<open>updateAssetBypassBrowserCache\<close> is on, \<open>floor(now/3600000) mod 13\<close> otherwise.
\<close>

theorem fetchText_cache_bust_token:
  "reIsExternalPath u \<and> \<not> friendly \<longrightarrow>
     (let token = (if bypass then (now div 1000) mod 86413 else (now div 3600000) mod 13);
          requested = u @ (if CHR ''?'' \<in> set u then ''&'' else ''?'') @ ''_='' @ showNat token
      in cacheBypassToken bypass now = token
         \<and> parseInt10 (showNat token) = token
         \<and> actualUrl getURL friendly bypass now u = requested
         \<and> fetchText getURL friendly bypass now fetch u
             = (checkText (fetch requested))\<lparr>url := u\<rparr>)"
  unfolding Let_def fetchText_def actualUrl_def cacheBypassToken_def
  by (simp add: parseInt10_showNat)

theorem fetchText_cache_bust_token_witness:
  "reIsExternalPath ''https://h/e.txt''
   \<and> actualUrl (\<lambda>u. u) False False 1700000000000 ''https://h/e.txt'' = ''https://h/e.txt?_=10''
   \<and> actualUrl (\<lambda>u. u) False True 1700000000000 ''https://h/e.txt?a=1''
       = ''https://h/e.txt?a=1&_=83464''"
proof -
  have e1: "reIsExternalPath ''https://h/e.txt''" by code_simp
  have e2: "reIsExternalPath ''https://h/e.txt?a=1''" by code_simp
  have s1: "showNat 10 = ''10''" by (simp add: showNat.simps)
  have s2: "showNat 83464 = ''83464''" by (simp add: showNat.simps)
  have t1: "(1700000000000 div 3600000) mod 13 = (10::nat)" by simp
  have t2: "(1700000000000 div 1000) mod 86413 = (83464::nat)" by simp
  have 1: "actualUrl (\<lambda>u. u) False False 1700000000000 ''https://h/e.txt'' = ''https://h/e.txt?_=10''"
    using fetchText_cache_bust_token [of "''https://h/e.txt''" False False 1700000000000 "\<lambda>u. u"] e1
    by (simp add: Let_def t1 s1)
  have 2: "actualUrl (\<lambda>u. u) False True 1700000000000 ''https://h/e.txt?a=1''
       = ''https://h/e.txt?a=1&_=83464''"
    using fetchText_cache_bust_token [of "''https://h/e.txt?a=1''" False True 1700000000000 "\<lambda>u. u"] e2
    by (simp add: Let_def t2 s2)
  show ?thesis using e1 1 2 by simp
qed

subsection \<open>Cache registry\<close>

lemma map_of_update_same: "map_of (AList.update k v al) k = Some v"
  by (simp add: update_conv')

lemma assetCacheRead_hit:
  assumes "cacheStorage st (''cache/'' @ assetKey) = Some bin"
    and "map_of (assetCacheRegistry st) assetKey = Some entry"
  shows "assetCacheRead now assetKey flag st =
     (reportBackRead assetKey bin,
      (if flag then saveAssetCacheRegistry True else id)
        (st\<lparr>assetCacheRegistry :=
            AList.update assetKey (objSet entry ''readTime'' (Num now)) (assetCacheRegistry st)\<rparr>))"
  using assms by (simp add: assetCacheRead_def Let_def)


text \<open>
  Claim C9. When \<open>assetCacheRead\<close> finds a stored blob and a registry entry for the key,
  the entry's \<open>readTime\<close> becomes the current time whether \<open>updateReadTime\<close> is true or
  false. With false nothing else of the state changes; with true the only difference is
  that the timer of the debounced save of the registry is on. The report is the same.
\<close>

theorem assetCacheRead_sets_readTime:
  "cacheStorage st (''cache/'' @ assetKey) = Some bin
   \<and> map_of (assetCacheRegistry st) assetKey = Some entry \<longrightarrow>
     (let s0 = snd (assetCacheRead now assetKey False st);
          s1 = snd (assetCacheRead now assetKey True st)
      in map_of (assetCacheRegistry s0) assetKey = Some (objSet entry ''readTime'' (Num now))
         \<and> objGet (objSet entry ''readTime'' (Num now)) ''readTime'' = Num now
         \<and> map_of (assetCacheRegistry s1) assetKey = Some (objSet entry ''readTime'' (Num now))
         \<and> s0 = st\<lparr>assetCacheRegistry := assetCacheRegistry s0\<rparr>
         \<and> s1 = s0\<lparr>cacheRegistrySaveTimer := True\<rparr>
         \<and> fst (assetCacheRead now assetKey True st)
             = fst (assetCacheRead now assetKey False st))"
proof
  assume h: "cacheStorage st (''cache/'' @ assetKey) = Some bin
   \<and> map_of (assetCacheRegistry st) assetKey = Some entry"
  let ?e = "objSet entry ''readTime'' (Num now)"
  let ?st1 = "st\<lparr>assetCacheRegistry := AList.update assetKey ?e (assetCacheRegistry st)\<rparr>"
  have r0: "assetCacheRead now assetKey False st = (reportBackRead assetKey bin, ?st1)"
    using h by (simp add: assetCacheRead_hit)
  have r1: "assetCacheRead now assetKey True st
      = (reportBackRead assetKey bin, ?st1\<lparr>cacheRegistrySaveTimer := True\<rparr>)"
    using h by (simp add: assetCacheRead_hit saveAssetCacheRegistry_def)
  show "let s0 = snd (assetCacheRead now assetKey False st);
          s1 = snd (assetCacheRead now assetKey True st)
      in map_of (assetCacheRegistry s0) assetKey = Some (objSet entry ''readTime'' (Num now))
         \<and> objGet (objSet entry ''readTime'' (Num now)) ''readTime'' = Num now
         \<and> map_of (assetCacheRegistry s1) assetKey = Some (objSet entry ''readTime'' (Num now))
         \<and> s0 = st\<lparr>assetCacheRegistry := assetCacheRegistry s0\<rparr>
         \<and> s1 = s0\<lparr>cacheRegistrySaveTimer := True\<rparr>
         \<and> fst (assetCacheRead now assetKey True st)
             = fst (assetCacheRead now assetKey False st)"
    unfolding Let_def r0 r1
    by (simp add: map_of_update_same objGet_objSet)
qed


theorem assetCacheRead_sets_readTime_witness:
  "map_of (assetCacheRegistry (snd (assetCacheRead 5000 ''easylist'' False sampleEngine)))
      ''easylist''
     = Some [(''readTime'', Num 5000), (''writeTime'', Num 1000), (''resourceTime'', Num 2000),
             (''remoteURL'', Str ''https://h/e.txt'')]
   \<and> snd (assetCacheRead 5000 ''easylist'' True sampleEngine)
     = (snd (assetCacheRead 5000 ''easylist'' False sampleEngine))
         \<lparr>cacheRegistrySaveTimer := True\<rparr>"
proof -
  let ?entry = "[(''readTime'', Num 1000), (''writeTime'', Num 1000), (''resourceTime'', Num 2000),
              (''remoteURL'', Str ''https://h/e.txt'')]"
  have a: "cacheStorage sampleEngine (''cache/'' @ ''easylist'') = Some (Text ''||a.com^'')"
    by (simp add: sampleEngine_def)
  have b: "map_of (assetCacheRegistry sampleEngine) ''easylist'' = Some ?entry"
    by (simp add: sampleEngine_def)
  have c: "objSet ?entry ''readTime'' (Num 5000)
      = [(''readTime'', Num 5000), (''writeTime'', Num 1000), (''resourceTime'', Num 2000),
         (''remoteURL'', Str ''https://h/e.txt'')]"
    by (simp add: objSet_def)
  show ?thesis
    using assetCacheRead_sets_readTime
      [of sampleEngine "''easylist''" "Text ''||a.com^''" ?entry 5000] a b
    unfolding Let_def c by blast
qed

subsection \<open>List assembler: include directives\<close>

lemma fetchURLs_append: "fetchURLs (xs @ ys) = fetchURLs xs @ fetchURLs ys"
  by (induction xs rule: fetchURLs.induct) simp_all

lemma includeTarget_Some_iff:
  "includeTarget pf parentURL scheduled path = Some u \<longleftrightarrow>
     toParsedURL pf path = None \<and> \<not> hasDotDot path
     \<and> (\<exists>dir. parentDirectory parentURL = Some dir \<and> u = dir @ trim path)
     \<and> u \<notin> set scheduled"
  by (auto simp: includeTarget_def Let_def split: option.splits)

lemma scanSlice_emits:
  "scanSlice pf parentURL held rest scheduled out = (out', scheduled') \<Longrightarrow>
   \<exists>new. fetchURLs out' = fetchURLs out @ new \<and> scheduled' = scheduled @ new
      \<and> distinct new \<and> set new \<inter> set scheduled = {}
      \<and> (\<forall>u \<in> set new. \<exists>dir path. parentDirectory parentURL = Some dir
             \<and> u = dir @ trim path \<and> toParsedURL pf path = None \<and> \<not> hasDotDot path)"
proof (induction pf parentURL held rest scheduled out rule: scanSlice.induct)
  case (1 pf parentURL held rest scheduled out)
  show ?case
  proof (cases "execInclude True rest")
    case None
    then have "out' = out @ [PString (held @ rest)]" "scheduled' = scheduled"
      using "1.prems" by (simp_all add: scanSlice.simps)
    then show ?thesis by (simp add: fetchURLs_append)
  next
    case (Some t)
    then obtain m path rest' where t: "execInclude True rest = Some (m, path, rest')"
      by (cases t) auto
    show ?thesis
    proof (cases "includeTarget pf parentURL scheduled path")
      case None
      then have "scanSlice pf parentURL (held @ m) rest' scheduled out = (out', scheduled')"
        using "1.prems" t by (simp add: scanSlice.simps)
      then show ?thesis using "1.IH"(1) [OF t refl refl None] by blast
    next
      case (Some subURL)
      let ?out1 = "out @ [PString (held @ m),
                         PString (''! >>>>>>>> '' @ subURL @ [char_of (10::nat)]),
                         PFetch subURL,
                         PString (''! <<<<<<<< '' @ subURL @ [char_of (10::nat)])]"
      have "scanSlice pf parentURL [] rest' (scheduled @ [subURL]) ?out1 = (out', scheduled')"
        using "1.prems" t Some by (simp add: scanSlice.simps)
      then obtain new where n: "fetchURLs out' = fetchURLs ?out1 @ new"
        "scheduled' = (scheduled @ [subURL]) @ new" "distinct new"
        "set new \<inter> set (scheduled @ [subURL]) = {}"
        "\<forall>u \<in> set new. \<exists>dir path. parentDirectory parentURL = Some dir
             \<and> u = dir @ trim path \<and> toParsedURL pf path = None \<and> \<not> hasDotDot path"
        using "1.IH"(2) [OF t refl refl Some] by blast
      from Some have s: "subURL \<notin> set scheduled" "\<exists>dir path. parentDirectory parentURL = Some dir
             \<and> subURL = dir @ trim path \<and> toParsedURL pf path = None \<and> \<not> hasDotDot path"
        by (auto simp: includeTarget_Some_iff)
      have "fetchURLs out' = fetchURLs out @ (subURL # new)"
        using n(1) by (simp add: fetchURLs_append)
      moreover have "scheduled' = scheduled @ (subURL # new)" using n(2) by simp
      moreover have "distinct (subURL # new)" using n(3,4) by auto
      moreover have "set (subURL # new) \<inter> set scheduled = {}" using n(4) s(1) by auto
      moreover have "\<forall>u \<in> set (subURL # new). \<exists>dir path. parentDirectory parentURL = Some dir
             \<and> u = dir @ trim path \<and> toParsedURL pf path = None \<and> \<not> hasDotDot path"
        using n(5) s(2) by auto
      ultimately show ?thesis by blast
    qed
  qed
qed


lemma emits_refl: "fetchURLs (fst b) = fetchURLs (fst a) \<Longrightarrow> snd b = snd a \<Longrightarrow> emits pf parents a b"
  by (simp add: emits_def)

lemma emits_trans:
  assumes "emits pf parents a b" "emits pf parents b c"
  shows "emits pf parents a c"
proof -
  obtain n1 where 1: "fetchURLs (fst b) = fetchURLs (fst a) @ n1" "snd b = snd a @ n1"
    "distinct n1" "set n1 \<inter> set (snd a) = {}"
    "\<forall>u \<in> set n1. \<exists>parentURL \<in> parents. \<exists>dir path.
               parentDirectory parentURL = Some dir \<and> u = dir @ trim path
               \<and> toParsedURL pf path = None \<and> \<not> hasDotDot path"
    using assms(1) unfolding emits_def by blast
  obtain n2 where 2: "fetchURLs (fst c) = fetchURLs (fst b) @ n2" "snd c = snd b @ n2"
    "distinct n2" "set n2 \<inter> set (snd b) = {}"
    "\<forall>u \<in> set n2. \<exists>parentURL \<in> parents. \<exists>dir path.
               parentDirectory parentURL = Some dir \<and> u = dir @ trim path
               \<and> toParsedURL pf path = None \<and> \<not> hasDotDot path"
    using assms(2) unfolding emits_def by blast
  have a: "fetchURLs (fst c) = fetchURLs (fst a) @ (n1 @ n2)" using 1(1) 2(1) by simp
  have b: "snd c = snd a @ (n1 @ n2)" using 1(2) 2(2) by simp
  have c: "distinct (n1 @ n2)" using 1(2,3) 2(3,4) by auto
  have d: "set (n1 @ n2) \<inter> set (snd a) = {}" using 1(2,4) 2(4) by auto
  have e: "\<forall>u \<in> set (n1 @ n2). \<exists>parentURL \<in> parents. \<exists>dir path.
               parentDirectory parentURL = Some dir \<and> u = dir @ trim path
               \<and> toParsedURL pf path = None \<and> \<not> hasDotDot path"
    using 1(5) 2(5) by auto
  show ?thesis unfolding emits_def using a b c d e by blast
qed

lemma emits_mono: "emits pf P a b \<Longrightarrow> P \<subseteq> Q \<Longrightarrow> emits pf Q a b"
  unfolding emits_def by (meson subsetD)

lemma scanSlice_emits':
  "emits pf {parentURL} (out, scheduled) (scanSlice pf parentURL held rest scheduled out)"
proof -
  obtain out' scheduled' where r: "scanSlice pf parentURL held rest scheduled out = (out', scheduled')"
    by (cases "scanSlice pf parentURL held rest scheduled out")
  show ?thesis using scanSlice_emits [OF r] unfolding r emits_def by simp
qed

lemma processSlices_emits:
  "emits pf {parentURL} (out, scheduled)
     (processSlices pf rootDefined parentURL excluded slices scheduled out)"
proof (induction slices arbitrary: excluded out scheduled)
  case Nil
  then show ?case by (simp add: emits_refl)
next
  case (Cons slice slices)
  show ?case
  proof (cases excluded)
    case True
    have 1: "emits pf {parentURL} (out, scheduled) (out @ [PString slice], scheduled)"
      by (simp add: emits_refl fetchURLs_append)
    have 2: "emits pf {parentURL} (out @ [PString slice], scheduled)
        (processSlices pf rootDefined parentURL False slices scheduled (out @ [PString slice]))"
      by (rule Cons.IH)
    show ?thesis using True emits_trans [OF 1 2] by simp
  next
    case False
    obtain out1 scheduled1 where r:
      "(if rootDefined then scanSlice pf parentURL [] slice scheduled out
               else (out @ [PString slice], scheduled)) = (out1, scheduled1)"
      by (cases "(if rootDefined then scanSlice pf parentURL [] slice scheduled out
               else (out @ [PString slice], scheduled))")
    have "emits pf {parentURL} (out, scheduled) (out1, scheduled1)"
    proof (cases rootDefined)
      case True
      then show ?thesis using r scanSlice_emits' [of pf parentURL out scheduled "[]" slice] by simp
    next
      case False
      then show ?thesis using r by (auto simp: emits_refl fetchURLs_append)
    qed
    moreover have "processSlices pf rootDefined parentURL excluded (slice # slices) scheduled out
        = processSlices pf rootDefined parentURL True slices scheduled1 out1"
      using False r by simp
    ultimately show ?thesis using Cons.IH emits_trans by metis
  qed
qed

lemma processResult_emits:
  "emits pf (parentURLs [r]) acc (processResult pf rootDefined acc r)"
proof (cases acc)
  case (Pair out scheduled)
  show ?thesis
  proof (cases r)
    case (RString s)
    then show ?thesis using Pair by (simp add: emits_refl fetchURLs_append)
  next
    case (RDetails d)
    then show ?thesis using Pair processSlices_emits by simp
  qed
qed

lemma parentURLs_append: "parentURLs (xs @ ys) = parentURLs xs \<union> parentURLs ys"
  by (induction xs rule: parentURLs.induct) auto

lemma foldl_processResult_emits:
  "emits pf (parentURLs results) acc (foldl (processResult pf rootDefined) acc results)"
proof (induction results arbitrary: acc)
  case Nil
  then show ?case by (simp add: emits_refl)
next
  case (Cons r rs)
  have 1: "emits pf (parentURLs (r # rs)) acc (processResult pf rootDefined acc r)"
    using processResult_emits [of pf r acc rootDefined]
    by (rule emits_mono) (cases r, auto)
  have 2: "emits pf (parentURLs (r # rs)) (processResult pf rootDefined acc r)
      (foldl (processResult pf rootDefined) (processResult pf rootDefined acc r) rs)"
    using Cons.IH [of "processResult pf rootDefined acc r"]
    by (rule emits_mono) (cases r, auto)
  show ?case using emits_trans [OF 1 2] by simp
qed

lemma processIncludeDirectives_emits:
  "emits pf (parentURLs results) ([], scheduled)
     (processIncludeDirectives pf rootDefined results scheduled)"
  unfolding processIncludeDirectives_def by (rule foldl_processResult_emits)

lemma includeTarget_None_iff:
  "includeTarget pf parentURL scheduled path = None \<longleftrightarrow>
     toParsedURL pf path \<noteq> None \<or> hasDotDot path \<or> parentDirectory parentURL = None
     \<or> (\<exists>dir. parentDirectory parentURL = Some dir \<and> dir @ trim path \<in> set scheduled)"
  by (auto simp: includeTarget_def Let_def split: option.splits)

lemma includeTarget_directiveSkipped:
  "includeTarget pf parentURL scheduled path =
     (if directiveSkipped pf True parentURL scheduled path then None
      else Some (resolveInclude parentURL path))"
  by (simp add: includeTarget_def directiveSkipped_def resolveInclude_def parentDirectory_def
      Let_def)

lemma includedURLs_append:
  "includedURLs pf rootDefined scheduled (xs @ ys) =
     includedURLs pf rootDefined scheduled xs
     @ includedURLs pf rootDefined (scheduled @ includedURLs pf rootDefined scheduled xs) ys"
proof (induction xs arbitrary: scheduled)
  case Nil
  then show ?case by simp
next
  case (Cons d ds)
  obtain parentURL path where d: "d = (parentURL, path)" by (cases d)
  show ?case unfolding d by (simp add: Cons.IH)
qed

lemma includedURLs_root_undefined: "includedURLs pf False scheduled directives = []"
  by (induction directives arbitrary: scheduled) (auto simp: directiveSkipped_def)

lemma scanSlice_includes:
  "fetchURLs (fst (scanSlice pf parentURL held rest scheduled out))
     = fetchURLs out @ includedURLs pf True scheduled (map (Pair parentURL) (directivePaths rest))
   \<and> snd (scanSlice pf parentURL held rest scheduled out)
     = scheduled @ includedURLs pf True scheduled (map (Pair parentURL) (directivePaths rest))"
proof (induction pf parentURL held rest scheduled out rule: scanSlice.induct)
  case (1 pf parentURL held rest scheduled out)
  show ?case
  proof (cases "execInclude True rest")
    case None
    then show ?thesis
      by (simp add: scanSlice.simps [of pf parentURL held rest] directivePaths.simps [of rest]
          fetchURLs_append)
  next
    case (Some t)
    then obtain m path rest' where t: "execInclude True rest = Some (m, path, rest')"
      by (cases t) auto
    have dp: "directivePaths rest = path # directivePaths rest'"
      using t by (simp add: directivePaths.simps [of rest])
    show ?thesis
    proof (cases "includeTarget pf parentURL scheduled path")
      case None
      then have sk: "directiveSkipped pf True parentURL scheduled path"
        by (simp add: includeTarget_directiveSkipped split: if_splits)
      have "scanSlice pf parentURL held rest scheduled out
          = scanSlice pf parentURL (held @ m) rest' scheduled out"
        using t None by (simp add: scanSlice.simps [of pf parentURL held rest])
      then show ?thesis using "1.IH"(1) [OF t refl refl None] dp sk by simp
    next
      case (Some subURL)
      then have sk: "\<not> directiveSkipped pf True parentURL scheduled path"
        and su: "subURL = resolveInclude parentURL path"
        by (simp_all add: includeTarget_directiveSkipped split: if_splits)
      let ?out1 = "out @ [PString (held @ m),
                         PString (''! >>>>>>>> '' @ subURL @ [char_of (10::nat)]),
                         PFetch subURL,
                         PString (''! <<<<<<<< '' @ subURL @ [char_of (10::nat)])]"
      have "scanSlice pf parentURL held rest scheduled out
          = scanSlice pf parentURL [] rest' (scheduled @ [subURL]) ?out1"
        using t Some by (simp add: scanSlice.simps [of pf parentURL held rest])
      then show ?thesis using "1.IH"(2) [OF t refl refl Some] dp sk su
        by (simp add: fetchURLs_append)
    qed
  qed
qed

lemma processSlices_root_undefined:
  "processSlices pf False parentURL excluded slices scheduled out
     = (out @ map PString slices, scheduled)"
  by (induction slices arbitrary: excluded out) simp_all

lemma processSlices_includes:
  "fetchURLs (fst (processSlices pf rootDefined parentURL excluded slices scheduled out))
     = fetchURLs out @ includedURLs pf rootDefined scheduled
         (map (Pair parentURL) (concat (map directivePaths (activeSlices excluded slices))))
   \<and> snd (processSlices pf rootDefined parentURL excluded slices scheduled out)
     = scheduled @ includedURLs pf rootDefined scheduled
         (map (Pair parentURL) (concat (map directivePaths (activeSlices excluded slices))))"
proof (cases rootDefined)
  case False
  have "fetchURLs (map PString xs) = []" for xs by (induction xs) simp_all
  then show ?thesis using False
    by (simp add: processSlices_root_undefined includedURLs_root_undefined fetchURLs_append)
next
  case True
  have "fetchURLs (fst (processSlices pf True parentURL excluded slices scheduled out))
     = fetchURLs out @ includedURLs pf True scheduled
         (map (Pair parentURL) (concat (map directivePaths (activeSlices excluded slices))))
   \<and> snd (processSlices pf True parentURL excluded slices scheduled out)
     = scheduled @ includedURLs pf True scheduled
         (map (Pair parentURL) (concat (map directivePaths (activeSlices excluded slices))))"
  proof (induction slices arbitrary: excluded out scheduled)
    case Nil
    then show ?case by simp
  next
    case (Cons slice slices)
    show ?case
    proof (cases excluded)
      case True
      then show ?thesis using Cons.IH [of False scheduled "out @ [PString slice]"]
        by (simp add: fetchURLs_append)
    next
      case False
      obtain out1 scheduled1 where r:
        "scanSlice pf parentURL [] slice scheduled out = (out1, scheduled1)"
        by (cases "scanSlice pf parentURL [] slice scheduled out")
      have s: "fetchURLs out1 = fetchURLs out
            @ includedURLs pf True scheduled (map (Pair parentURL) (directivePaths slice))"
        "scheduled1 = scheduled
            @ includedURLs pf True scheduled (map (Pair parentURL) (directivePaths slice))"
        using scanSlice_includes [of pf parentURL "[]" slice scheduled out] r by simp_all
      show ?thesis using False r Cons.IH [of True scheduled1 out1] s
        by (simp add: includedURLs_append)
    qed
  qed
  then show ?thesis using True by simp
qed

lemma foldl_processResult_includes:
  "fetchURLs (fst (foldl (processResult pf rootDefined) (out, scheduled) results))
     = fetchURLs out @ includedURLs pf rootDefined scheduled (roundDirectives pf results)
   \<and> snd (foldl (processResult pf rootDefined) (out, scheduled) results)
     = scheduled @ includedURLs pf rootDefined scheduled (roundDirectives pf results)"
proof (induction results arbitrary: out scheduled)
  case Nil
  then show ?case by simp
next
  case (Cons r rs)
  show ?case
  proof (cases r)
    case (RString s)
    then show ?thesis using Cons.IH [of "out @ [PString s]" scheduled]
      by (simp add: fetchURLs_append)
  next
    case (RDetails d)
    let ?slices = "slicesOf (content d) (preparserSplitter pf (content d))"
    obtain out1 scheduled1 where r1:
      "processSlices pf rootDefined (url d) False ?slices scheduled out = (out1, scheduled1)"
      by (cases "processSlices pf rootDefined (url d) False ?slices scheduled out")
    have s: "fetchURLs out1 = fetchURLs out @ includedURLs pf rootDefined scheduled
         (map (Pair (url d)) (concat (map directivePaths (activeSlices False ?slices))))"
      "scheduled1 = scheduled @ includedURLs pf rootDefined scheduled
         (map (Pair (url d)) (concat (map directivePaths (activeSlices False ?slices))))"
      using processSlices_includes [of pf rootDefined "url d" False ?slices scheduled out] r1
      by simp_all
    show ?thesis using RDetails r1 Cons.IH [of out1 scheduled1] s
      by (simp add: includedURLs_append)
  qed
qed

lemma processIncludeDirectives_includes:
  "fetchURLs (fst (processIncludeDirectives pf rootDefined results scheduled))
     = includedURLs pf rootDefined scheduled (roundDirectives pf results)
   \<and> snd (processIncludeDirectives pf rootDefined results scheduled)
     = scheduled @ includedURLs pf rootDefined scheduled (roundDirectives pf results)"
  unfolding processIncludeDirectives_def
  using foldl_processResult_includes [of pf rootDefined "[]" scheduled results] by simp



lemma includedURLs_set:
  "set (includedURLs pf rootDefined scheduled directives)
     = {resolveInclude parentURL path | parentURL path.
          (parentURL, path) \<in> set directives \<and> rootDefined \<and> toParsedURL pf path = None
          \<and> \<not> hasDotDot path \<and> CHR ''/'' \<in> set parentURL} - set scheduled"
proof (induction directives arbitrary: scheduled)
  case Nil
  then show ?case by simp
next
  case (Cons d ds)
  obtain parentURL path where d: "d = (parentURL, path)" by (cases d)
  show ?case
  proof (cases "directiveSkipped pf rootDefined parentURL scheduled path")
    case True
    then show ?thesis unfolding d using Cons.IH [of scheduled]
      by (auto simp: directiveSkipped_def)
  next
    case False
    then show ?thesis unfolding d
      using Cons.IH [of "scheduled @ [resolveInclude parentURL path]"]
      by (auto simp: directiveSkipped_def)
  qed
qed

text \<open>
  Claim C7, amended. A round of include processing goes through the directives of the
  active slices of the lists it is given. A directive is skipped, with no fetch emitted
  and nothing scheduled, when the root directory URL is undefined, or when its path
  parses as an absolute URL, or has \<open>..\<close>, or when the parent list's URL has no slash,
  or when the sub-URL is scheduled already. Every other directive is resolved against the
  parent list's URL: the sub-URL is the parent URL up to its last slash followed by the
  trimmed path, it is scheduled, and its fetch is emitted between the two banners. So
  the fetches that a round emits are, in order, the resolved URLs of the directives that
  are not skipped, and they are the URLs the round schedules; each is emitted once and
  none was scheduled before. When the root directory URL is undefined the slices are
  copied as they are.
\<close>

theorem include_directives_skipped_or_resolved:
  "(\<forall>pf parentURL held rest scheduled out m path rest'.
      execInclude True rest = Some (m, path, rest')
      \<and> (toParsedURL pf path \<noteq> None \<or> hasDotDot path \<or> parentDirectory parentURL = None
         \<or> (\<exists>dir. parentDirectory parentURL = Some dir \<and> dir @ trim path \<in> set scheduled))
      \<longrightarrow> scanSlice pf parentURL held rest scheduled out
            = scanSlice pf parentURL (held @ m) rest' scheduled out)
   \<and> (\<forall>pf parentURL held rest scheduled out m path rest' dir.
      execInclude True rest = Some (m, path, rest')
      \<and> toParsedURL pf path = None \<and> \<not> hasDotDot path
      \<and> parentDirectory parentURL = Some dir \<and> dir @ trim path \<notin> set scheduled
      \<longrightarrow> scanSlice pf parentURL held rest scheduled out
            = scanSlice pf parentURL [] rest' (scheduled @ [dir @ trim path])
                (out @ [PString (held @ m),
                        PString (''! >>>>>>>> '' @ dir @ trim path @ [char_of (10::nat)]),
                        PFetch (dir @ trim path),
                        PString (''! <<<<<<<< '' @ dir @ trim path @ [char_of (10::nat)])]))
   \<and> (\<forall>pf rootDefined results scheduled.
        snd (processIncludeDirectives pf rootDefined results scheduled)
          = scheduled @ fetchURLs (fst (processIncludeDirectives pf rootDefined results scheduled))
        \<and> distinct (fetchURLs (fst (processIncludeDirectives pf rootDefined results scheduled)))
        \<and> (\<forall>u \<in> set (fetchURLs (fst (processIncludeDirectives pf rootDefined results scheduled))).
              u \<notin> set scheduled
              \<and> (\<exists>parentURL \<in> parentURLs results. \<exists>dir path.
                    parentDirectory parentURL = Some dir \<and> u = dir @ trim path
                    \<and> toParsedURL pf path = None \<and> \<not> hasDotDot path)))
   \<and> (\<forall>pf rootDefined results scheduled.
        fetchURLs (fst (processIncludeDirectives pf rootDefined results scheduled))
          = includedURLs pf rootDefined scheduled (roundDirectives pf results)
        \<and> snd (processIncludeDirectives pf rootDefined results scheduled)
          = scheduled @ includedURLs pf rootDefined scheduled (roundDirectives pf results))
   \<and> (\<forall>pf rootDefined results scheduled.
        set (fetchURLs (fst (processIncludeDirectives pf rootDefined results scheduled)))
          = {resolveInclude parentURL path | parentURL path.
               (parentURL, path) \<in> set (roundDirectives pf results) \<and> rootDefined
               \<and> toParsedURL pf path = None \<and> \<not> hasDotDot path \<and> CHR ''/'' \<in> set parentURL}
            - set scheduled)
   \<and> (\<forall>pf rootDefined parentURL excluded slices scheduled out.
        \<not> rootDefined \<longrightarrow>
          processSlices pf rootDefined parentURL excluded slices scheduled out
            = (out @ map PString slices, scheduled))
   \<and> (\<forall>pf rootDefined parentURL slice slices scheduled out.
        rootDefined \<longrightarrow>
          processSlices pf rootDefined parentURL False (slice # slices) scheduled out
            = processSlices pf rootDefined parentURL True slices
                (snd (scanSlice pf parentURL [] slice scheduled out))
                (fst (scanSlice pf parentURL [] slice scheduled out)))"
proof -
  have skip: "scanSlice pf parentURL held rest scheduled out
            = scanSlice pf parentURL (held @ m) rest' scheduled out"
    if "execInclude True rest = Some (m, path, rest')
      \<and> (toParsedURL pf path \<noteq> None \<or> hasDotDot path \<or> parentDirectory parentURL = None
         \<or> (\<exists>dir. parentDirectory parentURL = Some dir \<and> dir @ trim path \<in> set scheduled))"
    for pf parentURL held rest scheduled out m path rest'
  proof -
    have "includeTarget pf parentURL scheduled path = None"
      using that includeTarget_None_iff by blast
    then show ?thesis using that by (subst scanSlice.simps) simp
  qed
  have resolve: "scanSlice pf parentURL held rest scheduled out
            = scanSlice pf parentURL [] rest' (scheduled @ [dir @ trim path])
                (out @ [PString (held @ m),
                        PString (''! >>>>>>>> '' @ dir @ trim path @ [char_of (10::nat)]),
                        PFetch (dir @ trim path),
                        PString (''! <<<<<<<< '' @ dir @ trim path @ [char_of (10::nat)])])"
    if "execInclude True rest = Some (m, path, rest')
      \<and> toParsedURL pf path = None \<and> \<not> hasDotDot path
      \<and> parentDirectory parentURL = Some dir \<and> dir @ trim path \<notin> set scheduled"
    for pf parentURL held rest scheduled out m path rest' dir
  proof -
    have "includeTarget pf parentURL scheduled path = Some (dir @ trim path)"
      using that includeTarget_Some_iff by blast
    then show ?thesis using that by (subst scanSlice.simps) simp
  qed
  have global: "snd (processIncludeDirectives pf rootDefined results scheduled)
          = scheduled @ fetchURLs (fst (processIncludeDirectives pf rootDefined results scheduled))
        \<and> distinct (fetchURLs (fst (processIncludeDirectives pf rootDefined results scheduled)))
        \<and> (\<forall>u \<in> set (fetchURLs (fst (processIncludeDirectives pf rootDefined results scheduled))).
              u \<notin> set scheduled
              \<and> (\<exists>parentURL \<in> parentURLs results. \<exists>dir path.
                    parentDirectory parentURL = Some dir \<and> u = dir @ trim path
                    \<and> toParsedURL pf path = None \<and> \<not> hasDotDot path))"
    for pf rootDefined results scheduled
    using processIncludeDirectives_emits [of pf results scheduled rootDefined]
    unfolding emits_def by auto
  have exact: "fetchURLs (fst (processIncludeDirectives pf rootDefined results scheduled))
          = includedURLs pf rootDefined scheduled (roundDirectives pf results)
        \<and> snd (processIncludeDirectives pf rootDefined results scheduled)
          = scheduled @ includedURLs pf rootDefined scheduled (roundDirectives pf results)"
    for pf rootDefined results scheduled
    by (rule processIncludeDirectives_includes)
  have asSet: "set (fetchURLs (fst (processIncludeDirectives pf rootDefined results scheduled)))
          = {resolveInclude parentURL path | parentURL path.
               (parentURL, path) \<in> set (roundDirectives pf results) \<and> rootDefined
               \<and> toParsedURL pf path = None \<and> \<not> hasDotDot path \<and> CHR ''/'' \<in> set parentURL}
            - set scheduled"
    for pf rootDefined results scheduled
    using processIncludeDirectives_includes [of pf rootDefined results scheduled]
      includedURLs_set [of pf rootDefined scheduled "roundDirectives pf results"]
    by simp
  have copied: "processSlices pf rootDefined parentURL excluded slices scheduled out
            = (out @ map PString slices, scheduled)"
    if "\<not> rootDefined" for pf rootDefined parentURL excluded slices scheduled out
    using that processSlices_root_undefined [of pf parentURL excluded slices scheduled out]
    by simp
  have scanned: "processSlices pf rootDefined parentURL False (slice # slices) scheduled out
            = processSlices pf rootDefined parentURL True slices
                (snd (scanSlice pf parentURL [] slice scheduled out))
                (fst (scanSlice pf parentURL [] slice scheduled out))"
    if "rootDefined" for pf rootDefined parentURL slice slices scheduled out
    using that by (simp add: case_prod_beta)
  show ?thesis
    apply (rule conjI)
     apply (intro allI impI)
     apply (erule skip)
    apply (rule conjI)
     apply (intro allI impI)
     apply (erule resolve)
    apply (rule conjI)
     apply (intro allI)
     apply (rule global)
    apply (rule conjI)
     apply (intro allI)
     apply (rule exact)
    apply (rule conjI)
     apply (intro allI)
     apply (rule asSet)
    apply (rule conjI)
     apply (intro allI impI)
     apply (erule copied)
    apply (intro allI impI)
    apply (erule scanned)
    done
qed

theorem include_directives_skipped_or_resolved_witness:
  "scanSlice pfSample ''https://h/a.txt'' [] ''!#include ../e'' [] []
     = ([PString ''!#include ../e''], [])
   \<and> scanSlice pfSample ''https://h/a.txt'' [] ''!#include b.txt'' [] []
     = ([PString ''!#include b.txt'',
         PString (''! >>>>>>>> https://h/b.txt'' @ newline),
         PFetch ''https://h/b.txt'',
         PString (''! <<<<<<<< https://h/b.txt'' @ newline),
         PString []], [''https://h/b.txt''])
   \<and> roundDirectives pfSample [RDetails (sampleNet ''https://h/a.txt'')]
     = [(''https://h/a.txt'', ''b.txt''), (''https://h/a.txt'', ''../e''),
        (''https://h/a.txt'', ''http://x/y''), (''https://h/a.txt'', ''b.txt'')]
   \<and> fetchURLs (fst (processIncludeDirectives pfSample True
       [RDetails (sampleNet ''https://h/a.txt'')] [])) = [''https://h/b.txt'']
   \<and> snd (processIncludeDirectives pfSample True
       [RDetails (sampleNet ''https://h/a.txt'')] []) = [''https://h/b.txt'']
   \<and> \<not> rootDirectoryDefined pfSample ''ext://id''
   \<and> includeTarget pfSample ''ext://id'' [] ''b.txt'' = Some ''ext://b.txt''
   \<and> processSlices pfSample (rootDirectoryDefined pfSample ''ext://id'') ''ext://id'' False
       [''!#include b.txt''] [] [] = ([PString ''!#include b.txt''], [])
   \<and> fetchURLs (fst (processIncludeDirectives pfSample
       (rootDirectoryDefined pfSample ''ext://id'')
       [RDetails (loaded ''ext://id'' ''!#include b.txt'')] [])) = []"
proof -
  have e1: "execInclude True ''!#include ../e'' = Some (''!#include ../e'', ''../e'', [])"
    by code_simp
  have d1: "hasDotDot ''../e''" by code_simp
  have "scanSlice pfSample ''https://h/a.txt'' [] ''!#include ../e'' [] []
      = scanSlice pfSample ''https://h/a.txt'' ([] @ ''!#include ../e'') [] [] []"
    by (rule include_directives_skipped_or_resolved
          [THEN conjunct1, rule_format, where path = "''../e''"])
       (rule conjI [OF e1], simp add: d1)
  moreover have "scanSlice pfSample ''https://h/a.txt'' ([] @ ''!#include ../e'') [] [] []
      = ([PString ''!#include ../e''], [])"
    by code_simp
  ultimately have a: "scanSlice pfSample ''https://h/a.txt'' [] ''!#include ../e'' [] []
      = ([PString ''!#include ../e''], [])"
    by (rule trans)
  have e2: "execInclude True ''!#include b.txt'' = Some (''!#include b.txt'', ''b.txt'', [])"
    by code_simp
  have p2: "toParsedURL pfSample ''b.txt'' = None" "\<not> hasDotDot ''b.txt''"
    "parentDirectory ''https://h/a.txt'' = Some ''https://h/''"
    by code_simp+
  have "scanSlice pfSample ''https://h/a.txt'' [] ''!#include b.txt'' [] []
      = scanSlice pfSample ''https://h/a.txt'' [] [] ([] @ [''https://h/'' @ trim ''b.txt''])
          ([] @ [PString ([] @ ''!#include b.txt''),
                 PString (''! >>>>>>>> '' @ ''https://h/'' @ trim ''b.txt'' @ [char_of (10::nat)]),
                 PFetch (''https://h/'' @ trim ''b.txt''),
                 PString (''! <<<<<<<< '' @ ''https://h/'' @ trim ''b.txt'' @ [char_of (10::nat)])])"
    by (rule include_directives_skipped_or_resolved
          [THEN conjunct2, THEN conjunct1, rule_format,
           where path = "''b.txt''" and dir = "''https://h/''"])
       (intro conjI; (rule e2 p2 | simp))
  moreover have "scanSlice pfSample ''https://h/a.txt'' [] [] ([] @ [''https://h/'' @ trim ''b.txt''])
          ([] @ [PString ([] @ ''!#include b.txt''),
                 PString (''! >>>>>>>> '' @ ''https://h/'' @ trim ''b.txt'' @ [char_of (10::nat)]),
                 PFetch (''https://h/'' @ trim ''b.txt''),
                 PString (''! <<<<<<<< '' @ ''https://h/'' @ trim ''b.txt'' @ [char_of (10::nat)])])
      = ([PString ''!#include b.txt'',
         PString (''! >>>>>>>> https://h/b.txt'' @ newline),
         PFetch ''https://h/b.txt'',
         PString (''! <<<<<<<< https://h/b.txt'' @ newline),
         PString []], [''https://h/b.txt''])"
    by code_simp
  ultimately have b: "scanSlice pfSample ''https://h/a.txt'' [] ''!#include b.txt'' [] []
      = ([PString ''!#include b.txt'',
         PString (''! >>>>>>>> https://h/b.txt'' @ newline),
         PFetch ''https://h/b.txt'',
         PString (''! <<<<<<<< https://h/b.txt'' @ newline),
         PString []], [''https://h/b.txt''])"
    by (rule trans)
  have c: "roundDirectives pfSample [RDetails (sampleNet ''https://h/a.txt'')]
     = [(''https://h/a.txt'', ''b.txt''), (''https://h/a.txt'', ''../e''),
        (''https://h/a.txt'', ''http://x/y''), (''https://h/a.txt'', ''b.txt'')]"
    by code_simp
  have i: "includedURLs pfSample True []
      [(''https://h/a.txt'', ''b.txt''), (''https://h/a.txt'', ''../e''),
        (''https://h/a.txt'', ''http://x/y''), (''https://h/a.txt'', ''b.txt'')]
      = [''https://h/b.txt'']"
    by code_simp
  have d: "fetchURLs (fst (processIncludeDirectives pfSample True
       [RDetails (sampleNet ''https://h/a.txt'')] [])) = [''https://h/b.txt'']"
    using include_directives_skipped_or_resolved
      [THEN conjunct2, THEN conjunct2, THEN conjunct2, THEN conjunct1, rule_format,
       THEN conjunct1, of pfSample True "[RDetails (sampleNet ''https://h/a.txt'')]" "[]"]
    by (simp only: c i)
  have e: "snd (processIncludeDirectives pfSample True
       [RDetails (sampleNet ''https://h/a.txt'')] []) = [''https://h/b.txt'']"
    using include_directives_skipped_or_resolved
      [THEN conjunct2, THEN conjunct2, THEN conjunct2, THEN conjunct1, rule_format,
       THEN conjunct2, of pfSample True "[RDetails (sampleNet ''https://h/a.txt'')]" "[]"]
    by (simp only: c i append_Nil)
  have f: "\<not> rootDirectoryDefined pfSample ''ext://id''" by code_simp
  have g: "includeTarget pfSample ''ext://id'' [] ''b.txt'' = Some ''ext://b.txt''"
    by code_simp
  have h: "processSlices pfSample (rootDirectoryDefined pfSample ''ext://id'') ''ext://id'' False
       [''!#include b.txt''] [] [] = ([PString ''!#include b.txt''], [])"
    using include_directives_skipped_or_resolved
      [THEN conjunct2, THEN conjunct2, THEN conjunct2, THEN conjunct2, THEN conjunct2,
       THEN conjunct1, rule_format,
       of "rootDirectoryDefined pfSample ''ext://id''" pfSample "''ext://id''" False
         "[''!#include b.txt'']" "[]" "[]", OF f]
    by simp
  have j: "fetchURLs (fst (processIncludeDirectives pfSample
       (rootDirectoryDefined pfSample ''ext://id'')
       [RDetails (loaded ''ext://id'' ''!#include b.txt'')] [])) = []"
    using include_directives_skipped_or_resolved
      [THEN conjunct2, THEN conjunct2, THEN conjunct2, THEN conjunct2, THEN conjunct1,
       rule_format, of pfSample "rootDirectoryDefined pfSample ''ext://id''"
         "[RDetails (loaded ''ext://id'' ''!#include b.txt'')]" "[]"] f
    by simp
  show ?thesis using a b c d e f g h j by (intro conjI)
qed

text \<open>
  The claim as first stated fails for a parent list whose URL has no slash: the list
  \<open>filters.txt\<close> of the extension includes \<open>b.txt\<close>, a path that is not absolute, has no
  \<open>..\<close> and is not scheduled, and the assembler returns the list as it is, with no
  sub-URL resolved or fetched.
\<close>

theorem include_without_parent_directory_counterexample:
  "rootDirectoryDefined pfSample ''filters.txt''
   \<and> content (sampleNet ''filters.txt'') = ''!#include b.txt''
   \<and> execInclude True ''!#include b.txt'' = Some (''!#include b.txt'', ''b.txt'', [])
   \<and> toParsedURL pfSample ''b.txt'' = None \<and> \<not> hasDotDot ''b.txt''
   \<and> fetchLoop 2 pfSample sampleNet ''filters.txt'' True [PFetch ''filters.txt''] 0 []
       = Some (assembled ''filters.txt'' 0 [PString ''!#include b.txt''], [])"
  by code_simp

subsection \<open>List assembler: failure of a sublist\<close>





lemma fetchLoop_found:
  "find (\<lambda>p. partError p \<noteq> None) (map (settle ft) allParts) = Some p \<Longrightarrow>
   fetchLoop (Suc fuel) pf ft mainlistURL rootDefined allParts time scheduled
     = Some (failed mainlistURL (partError p), scheduled)"
  by (simp add: fetchLoop.simps Let_def)

lemma fetchLoop_diff:
  "find (\<lambda>p. partError p \<noteq> None) (map (settle ft) allParts) = None \<Longrightarrow>
   diffUpdatableAlone pf (map (settle ft) allParts) = Some text \<Longrightarrow>
   fetchLoop (Suc fuel) pf ft mainlistURL rootDefined allParts time scheduled
     = Some (assembled mainlistURL (resourceTimeFromParts (map (settle ft) allParts) time)
               [PString text], scheduled)"
  by (simp add: fetchLoop.simps Let_def)

lemma fetchLoop_continue:
  "find (\<lambda>p. partError p \<noteq> None) (map (settle ft) allParts) = None \<Longrightarrow>
   diffUpdatableAlone pf (map (settle ft) allParts) = None \<Longrightarrow>
   processIncludeDirectives pf rootDefined (map (settle ft) allParts) scheduled
     = (parts1, scheduled1) \<Longrightarrow>
   fetchLoop (Suc fuel) pf ft mainlistURL rootDefined allParts time scheduled
     = (if list_ex isFetch parts1
        then fetchLoop fuel pf ft mainlistURL rootDefined parts1
               (resourceTimeFromParts (map (settle ft) allParts) time) scheduled1
        else Some (assembled mainlistURL
                     (resourceTimeFromParts (map (settle ft) allParts) time) parts1,
                   scheduled1))"
  by (simp add: fetchLoop.simps Let_def)




lemma fetchLoop_more_fuel:
  "fetchLoop fuel pf ft mainlistURL rootDefined allParts time scheduled = Some x
   \<Longrightarrow> fetchLoop (fuel + k) pf ft mainlistURL rootDefined allParts time scheduled = Some x"
proof (induction fuel arbitrary: allParts time scheduled)
  case 0
  then show ?case by (simp add: fetchLoop.simps)
next
  case (Suc fuel)
  let ?settled = "map (settle ft) allParts"
  show ?case
  proof (cases "find (\<lambda>p. partError p \<noteq> None) ?settled")
    case (Some p)
    show ?thesis using Suc.prems fetchLoop_found [OF Some] by simp
  next
    case None
    show ?thesis
    proof (cases "diffUpdatableAlone pf ?settled")
      case (Some body)
      show ?thesis using Suc.prems fetchLoop_diff [OF None Some] by simp
    next
      case nd: None
      obtain parts1 scheduled1 where pr:
        "processIncludeDirectives pf rootDefined ?settled scheduled = (parts1, scheduled1)"
        by (cases "processIncludeDirectives pf rootDefined ?settled scheduled")
      show ?thesis
      proof (cases "list_ex isFetch parts1")
        case True
        then have "fetchLoop fuel pf ft mainlistURL rootDefined parts1
            (resourceTimeFromParts ?settled time) scheduled1 = Some x"
          using Suc.prems fetchLoop_continue [OF None nd pr, of fuel mainlistURL time] by simp
        then have "fetchLoop (fuel + k) pf ft mainlistURL rootDefined parts1
            (resourceTimeFromParts ?settled time) scheduled1 = Some x"
          by (rule Suc.IH)
        then show ?thesis
          using True fetchLoop_continue [OF None nd pr, of "fuel + k" mainlistURL time] by simp
      next
        case False
        then show ?thesis
          using Suc.prems fetchLoop_continue [OF None nd pr, of fuel mainlistURL time]
            fetchLoop_continue [OF None nd pr, of "fuel + k" mainlistURL time] by simp
      qed
    qed
  qed
qed




subsection \<open>User assets\<close>

text \<open>
  Claim C4 at the key \<open>user-foo\<close>, with \<open>user-filters\<close> the key of the user filters.
  \<open>put\<close> stores the content in the settings storage, where the user-asset read finds
  it; \<open>get\<close> does not delegate to that read, it goes to the cache and the source
  registry and reports \<open>ENOTFOUND\<close>. Only the key equal to \<^verbatim>\<open>userFiltersPath\<close> is
  read from the settings storage.
\<close>

theorem get_user_key_misses_settings:
  "reIsUserAsset ''user-foo''
   \<and> fst (put 5000 ''user-foo'' ''mine'' sampleEngine)
       = Some [(''assetKey'', Str ''user-foo''), (''content'', Str ''mine'')]
   \<and> settingsStorage (snd (put 5000 ''user-foo'' ''mine'' sampleEngine)) ''user-foo''
       = Some (Str ''mine'')
   \<and> readUserAsset ''user-foo'' (snd (put 5000 ''user-foo'' ''mine'' sampleEngine))
       = [(''assetKey'', Str ''user-foo''), (''content'', Str ''mine'')]
   \<and> map_option fst
         (get 1 pfSample bgSample sampleNet 6000 ''user-foo'' []
            (snd (put 5000 ''user-foo'' ''mine'' sampleEngine)))
       = Some [(''assetKey'', Str ''user-foo''), (''content'', Str []),
               (''error'', Str ''ENOTFOUND'')]
   \<and> map_option fst
         (get 1 pfSample bgSample sampleNet 6000 ''user-filters'' []
            (snd (put 5000 ''user-filters'' ''mine'' sampleEngine)))
       = Some [(''assetKey'', Str ''user-filters''), (''content'', Str ''mine'')]"
  by code_simp

text \<open>
  For such a key \<open>get\<close> consults the cache: a blob cached under it is what is returned,
  and the read time of its registry entry is written.
\<close>

theorem get_user_key_reads_cache:
  "map_option fst
     (get 1 pfSample bgSample sampleNet 6000 ''user-foo'' []
        (sampleEngine\<lparr>assetCacheRegistry := [(''user-foo'', [(''writeTime'', Num 1000)])],
                      cacheStorage := [''cache/user-foo'' \<mapsto> Text ''cached'']\<rparr>))
   = Some [(''assetKey'', Str ''user-foo''), (''content'', Str ''cached'')]
   \<and> map_option (assetCacheRegistry \<circ> snd)
     (get 1 pfSample bgSample sampleNet 6000 ''user-foo'' []
        (sampleEngine\<lparr>assetCacheRegistry := [(''user-foo'', [(''writeTime'', Num 1000)])],
                      cacheStorage := [''cache/user-foo'' \<mapsto> Text ''cached'']\<rparr>))
   = Some [(''user-foo'', [(''writeTime'', Num 1000), (''readTime'', Num 6000)])]"
  by code_simp

subsection \<open>Remote refresher\<close>

lemma yieldsStale_fetch:
  assumes "yieldsStale fuel pf bg ft assetKey filters cacheDetails contentURL"
  shows "\<exists>result. remoteFetch fuel pf ft filters (remoteURL bg assetKey contentURL) = Some result
     \<and> stringIsNotEmpty (content result) \<and> resourceIsStale result cacheDetails"
proof -
  obtain result where r: "remoteFetch fuel pf ft filters (remoteURL bg assetKey contentURL) = Some result"
    using assms by (auto simp: yieldsStale_def split: option.splits)
  have c: "content result \<noteq> []" using assms r by (simp add: yieldsStale_def)
  have "case (resourceTime result, objGet cacheDetails ''resourceTime'') of
                (Some t, Num c) \<Rightarrow> 0 < t \<and> 0 < c \<and> t < c
              | _ \<Rightarrow> False"
    using assms r by (simp add: yieldsStale_def)
  then have "resourceIsStale result cacheDetails"
    by (auto simp: resourceIsStale_def split: option.splits jsval.splits)
  then show ?thesis using r c by (simp add: stringIsNotEmpty_def)
qed

lemma remoteLoop_stale_step:
  assumes "reIsExternalPath contentURL"
    and "yieldsStale fuel pf bg ft assetKey filters cacheDetails contentURL"
  shows "remoteLoop fuel pf bg ft now assetKey known filters cacheDetails
           (contentURL # contentURLs) err stale st
         = remoteLoop fuel pf bg ft now assetKey known filters cacheDetails contentURLs
             Undefined True st"
proof -
  obtain result where "remoteFetch fuel pf ft filters (remoteURL bg assetKey contentURL) = Some result"
    "stringIsNotEmpty (content result)" "resourceIsStale result cacheDetails"
    using yieldsStale_fetch [OF assms(2)] by blast
  then show ?thesis using assms(1) by simp
qed

lemma remoteLoop_all_stale:
  assumes "\<forall>u \<in> set contentURLs. reIsExternalPath u \<longrightarrow>
             yieldsStale fuel pf bg ft assetKey filters cacheDetails u"
  shows "remoteLoop fuel pf bg ft now assetKey known filters cacheDetails contentURLs err stale st
     = Some (remoteFinish now assetKey known cacheDetails
               (if \<exists>u \<in> set contentURLs. reIsExternalPath u then Undefined else err)
               (stale \<or> (\<exists>u \<in> set contentURLs. reIsExternalPath u)) st)"
  using assms
proof (induction contentURLs arbitrary: err stale)
  case Nil
  then show ?case by simp
next
  case (Cons u us)
  have rest: "\<forall>u \<in> set us. reIsExternalPath u \<longrightarrow>
             yieldsStale fuel pf bg ft assetKey filters cacheDetails u"
    using Cons.prems by simp
  show ?case
  proof (cases "reIsExternalPath u")
    case True
    then have "yieldsStale fuel pf bg ft assetKey filters cacheDetails u"
      using Cons.prems by simp
    then have "remoteLoop fuel pf bg ft now assetKey known filters cacheDetails (u # us) err stale st
        = remoteLoop fuel pf bg ft now assetKey known filters cacheDetails us Undefined True st"
      using True by (rule remoteLoop_stale_step [rotated])
    then show ?thesis using Cons.IH [OF rest, of Undefined True] True by simp
  next
    case False
    then show ?thesis using Cons.IH [OF rest, of err stale] by simp
  qed
qed

lemma setLastError_cache:
  "assetCacheRegistry (setLastError known assetKey e st) = assetCacheRegistry st"
  "cacheStorage (setLastError known assetKey e st) = cacheStorage st"
  by (simp_all add: setLastError_def split: option.splits)

lemma reportBackRemote_cache:
  "assetCacheRegistry (snd (reportBackRemote known assetKey body e st)) = assetCacheRegistry st"
  "cacheStorage (snd (reportBackRemote known assetKey body e st)) = cacheStorage st"
  by (simp_all add: reportBackRemote_def Let_def setLastError_cache)

lemma reportBackRemote_empty:
  "fst (reportBackRemote known assetKey [] [] st)
     = [(''assetKey'', Str assetKey), (''content'', Str [])]"
  by (simp add: reportBackRemote_def Let_def)

lemma setDetails_writeTime:
  assumes "map_of (assetCacheRegistry st) assetKey = Some entry"
  shows "map_of (assetCacheRegistry (assetCacheSetDetails assetKey [(''writeTime'', Num c)] st))
           assetKey = Some (objSet entry ''writeTime'' (Num c))"
    and "cacheStorage (assetCacheSetDetails assetKey [(''writeTime'', Num c)] st)
           (''cache/'' @ k) = cacheStorage st (''cache/'' @ k)"
    and "k \<noteq> assetKey \<Longrightarrow>
         map_of (assetCacheRegistry (assetCacheSetDetails assetKey [(''writeTime'', Num c)] st)) k
           = map_of (assetCacheRegistry st) k"
proof -
  have same: "objSet entry ''writeTime'' (Num c) = entry" if "Num c = objGet entry ''writeTime''"
  proof -
    have "map_of entry ''writeTime'' = Some (Num c)"
      using that by (auto simp: objGet_def split: option.splits)
    then show ?thesis by (simp add: objSet_def update_triv)
  qed
  have f: "foldl setDetail (entry, False) [(''writeTime'', Num c)]
      = (objSet entry ''writeTime'' (Num c), Num c \<noteq> objGet entry ''writeTime'')"
    using same by (auto simp: setDetail_def)
  show "map_of (assetCacheRegistry (assetCacheSetDetails assetKey [(''writeTime'', Num c)] st))
           assetKey = Some (objSet entry ''writeTime'' (Num c))"
    using assms f
    by (simp add: assetCacheSetDetails_def Let_def saveAssetCacheRegistry_def update_conv')
  show "cacheStorage (assetCacheSetDetails assetKey [(''writeTime'', Num c)] st)
           (''cache/'' @ k) = cacheStorage st (''cache/'' @ k)"
    using assms f
    by (simp add: assetCacheSetDetails_def Let_def saveAssetCacheRegistry_def)
  show "map_of (assetCacheRegistry (assetCacheSetDetails assetKey [(''writeTime'', Num c)] st)) k
           = map_of (assetCacheRegistry st) k" if "k \<noteq> assetKey"
    using assms that f
    by (simp add: assetCacheSetDetails_def Let_def saveAssetCacheRegistry_def update_conv')
qed

lemma getRemote_all_stale:
  assumes e: "map_of (assetCacheRegistry st) assetKey = Some entry"
    and s: "map_of (assetSourceRegistry st) assetKey = Some assetDetails"
    and a: "\<forall>u \<in> set (remoteContentURLs random (remoteServerFriendly st) assetDetails).
             reIsExternalPath u \<longrightarrow>
             yieldsStale fuel pf bg (ft (remoteServerFriendly st)) assetKey
               (objGet assetDetails ''content'' = Str ''filters'') entry u"
    and x: "\<exists>u \<in> set (remoteContentURLs random (remoteServerFriendly st) assetDetails).
             reIsExternalPath u"
  shows "\<exists>report st'. getRemote fuel pf bg ft random now assetKey st = Some (report, st')
     \<and> report = [(''assetKey'', Str assetKey), (''content'', Str [])]
     \<and> map_of (assetCacheRegistry st') assetKey
         = Some (objSet entry ''writeTime'' (objGet entry ''resourceTime''))
     \<and> cacheStorage st' (''cache/'' @ assetKey) = cacheStorage st (''cache/'' @ assetKey)"
proof -
  let ?us = "remoteContentURLs random (remoteServerFriendly st) assetDetails"
  let ?filters = "objGet assetDetails ''content'' = Str ''filters''"
  obtain u where u: "u \<in> set ?us" "reIsExternalPath u" using x by blast
  then have "yieldsStale fuel pf bg (ft (remoteServerFriendly st)) assetKey ?filters entry u"
    using a by blast
  then obtain c where c: "objGet entry ''resourceTime'' = Num c"
    by (auto simp: yieldsStale_def split: option.splits jsval.splits)
  have loop: "remoteLoop fuel pf bg (ft (remoteServerFriendly st)) now assetKey True ?filters
      entry ?us Undefined False st
     = Some (remoteFinish now assetKey True entry Undefined True st)"
    using remoteLoop_all_stale [OF a, of now True Undefined False st] x by simp
  have g: "getRemote fuel pf bg ft random now assetKey st
     = Some (remoteFinish now assetKey True entry Undefined True st)"
    using e s loop by (simp add: getRemote_def assetCacheGetDetails_def Let_def)
  let ?st1 = "assetCacheSetDetails assetKey [(''writeTime'', Num c)] st"
  have f: "remoteFinish now assetKey True entry Undefined True st
     = reportBackRemote True assetKey [] [] ?st1"
    by (simp add: remoteFinish_def c)
  let ?r = "reportBackRemote True assetKey [] [] ?st1"
  have 1: "fst ?r = [(''assetKey'', Str assetKey), (''content'', Str [])]"
    by (rule reportBackRemote_empty)
  have 2: "map_of (assetCacheRegistry (snd ?r)) assetKey
         = Some (objSet entry ''writeTime'' (objGet entry ''resourceTime''))"
    using setDetails_writeTime(1) [OF e, of c] by (simp add: reportBackRemote_cache c)
  have 3: "cacheStorage (snd ?r) (''cache/'' @ assetKey) = cacheStorage st (''cache/'' @ assetKey)"
    using setDetails_writeTime(2) [OF e, of c assetKey] by (simp add: reportBackRemote_cache)
  have "getRemote fuel pf bg ft random now assetKey st = Some (fst ?r, snd ?r)"
    using g f by simp
  then show ?thesis using 1 2 3 by blast
qed

text \<open>
  Claim C1. In the loop of \<open>getRemote\<close>, a fetched result whose resource time and the
  cached entry's are both positive, the fetched one being the smaller, is skipped: the
  loop goes on to the next URL with the state as it was, nothing written to the cache.
  When the asset has an external URL and every external URL gives such a result,
  \<open>getRemote\<close> returns empty content and no error, the cached content is the one
  stored before, and the registry entry is the one read before with its \<open>writeTime\<close>
  set to its \<open>resourceTime\<close>, which is unchanged.
\<close>

theorem getRemote_stale_results_skipped:
  "(\<forall>fuel pf bg ft now assetKey known filters cacheDetails contentURL contentURLs err stale st.
      reIsExternalPath contentURL
      \<and> yieldsStale fuel pf bg ft assetKey filters cacheDetails contentURL \<longrightarrow>
      remoteLoop fuel pf bg ft now assetKey known filters cacheDetails
        (contentURL # contentURLs) err stale st
      = remoteLoop fuel pf bg ft now assetKey known filters cacheDetails contentURLs
          Undefined True st)
   \<and> (\<forall>fuel pf bg ft random now assetKey st entry assetDetails.
        map_of (assetCacheRegistry st) assetKey = Some entry
        \<and> map_of (assetSourceRegistry st) assetKey = Some assetDetails
        \<and> (\<forall>u \<in> set (remoteContentURLs random (remoteServerFriendly st) assetDetails).
             reIsExternalPath u \<longrightarrow>
             yieldsStale fuel pf bg (ft (remoteServerFriendly st)) assetKey
               (objGet assetDetails ''content'' = Str ''filters'') entry u)
        \<and> (\<exists>u \<in> set (remoteContentURLs random (remoteServerFriendly st) assetDetails).
             reIsExternalPath u)
        \<longrightarrow>
        (\<exists>report st'. getRemote fuel pf bg ft random now assetKey st = Some (report, st')
           \<and> objGet report ''content'' = Str [] \<and> objGet report ''error'' = Undefined
           \<and> map_of (assetCacheRegistry st') assetKey
               = Some (objSet entry ''writeTime'' (objGet entry ''resourceTime''))
           \<and> objGet (objSet entry ''writeTime'' (objGet entry ''resourceTime'')) ''writeTime''
               = objGet entry ''resourceTime''
           \<and> objGet (objSet entry ''writeTime'' (objGet entry ''resourceTime'')) ''resourceTime''
               = objGet entry ''resourceTime''
           \<and> cacheStorage st' (''cache/'' @ assetKey) = cacheStorage st (''cache/'' @ assetKey)))"
proof -
  have step: "remoteLoop fuel pf bg ft now assetKey known filters cacheDetails
        (contentURL # contentURLs) err stale st
      = remoteLoop fuel pf bg ft now assetKey known filters cacheDetails contentURLs
          Undefined True st"
    if "reIsExternalPath contentURL
      \<and> yieldsStale fuel pf bg ft assetKey filters cacheDetails contentURL"
    for fuel pf bg ft now assetKey known filters cacheDetails contentURL contentURLs err stale st
    using that remoteLoop_stale_step by blast
  have all: "\<exists>report st'. getRemote fuel pf bg ft random now assetKey st = Some (report, st')
           \<and> objGet report ''content'' = Str [] \<and> objGet report ''error'' = Undefined
           \<and> map_of (assetCacheRegistry st') assetKey
               = Some (objSet entry ''writeTime'' (objGet entry ''resourceTime''))
           \<and> objGet (objSet entry ''writeTime'' (objGet entry ''resourceTime'')) ''writeTime''
               = objGet entry ''resourceTime''
           \<and> objGet (objSet entry ''writeTime'' (objGet entry ''resourceTime'')) ''resourceTime''
               = objGet entry ''resourceTime''
           \<and> cacheStorage st' (''cache/'' @ assetKey) = cacheStorage st (''cache/'' @ assetKey)"
    if h: "map_of (assetCacheRegistry st) assetKey = Some entry
        \<and> map_of (assetSourceRegistry st) assetKey = Some assetDetails
        \<and> (\<forall>u \<in> set (remoteContentURLs random (remoteServerFriendly st) assetDetails).
             reIsExternalPath u \<longrightarrow>
             yieldsStale fuel pf bg (ft (remoteServerFriendly st)) assetKey
               (objGet assetDetails ''content'' = Str ''filters'') entry u)
        \<and> (\<exists>u \<in> set (remoteContentURLs random (remoteServerFriendly st) assetDetails).
             reIsExternalPath u)"
    for fuel pf bg ft random now assetKey st entry assetDetails
  proof -
    obtain report st' where r: "getRemote fuel pf bg ft random now assetKey st = Some (report, st')"
      "report = [(''assetKey'', Str assetKey), (''content'', Str [])]"
      "map_of (assetCacheRegistry st') assetKey
         = Some (objSet entry ''writeTime'' (objGet entry ''resourceTime''))"
      "cacheStorage st' (''cache/'' @ assetKey) = cacheStorage st (''cache/'' @ assetKey)"
      using getRemote_all_stale [of st assetKey entry assetDetails random fuel pf bg ft now] h
      by blast
    have 1: "objGet report ''content'' = Str []" "objGet report ''error'' = Undefined"
      using r(2) by (simp_all add: objGet_def)
    have 2: "objGet (objSet entry ''writeTime'' (objGet entry ''resourceTime'')) ''writeTime''
               = objGet entry ''resourceTime''"
      "objGet (objSet entry ''writeTime'' (objGet entry ''resourceTime'')) ''resourceTime''
               = objGet entry ''resourceTime''"
      by (simp_all add: objGet_objSet)
    show ?thesis using r(1,3,4) 1 2 by blast
  qed
  show ?thesis
    apply (rule conjI)
     apply (intro allI impI)
     apply (erule step)
    apply (intro allI impI)
    apply (erule all)
    done
qed


theorem getRemote_stale_results_skipped_witness:
  "map_option fst (getRemote 2 pfSample bgSample (\<lambda>friendly. staleNet) (\<lambda>i. 0) 5000
       ''easylist'' sampleEngine)
     = Some [(''assetKey'', Str ''easylist''), (''content'', Str [])]
   \<and> map_option (\<lambda>r. map_of (assetCacheRegistry (snd r)) ''easylist'')
       (getRemote 2 pfSample bgSample (\<lambda>friendly. staleNet) (\<lambda>i. 0) 5000
          ''easylist'' sampleEngine)
     = Some (Some [(''readTime'', Num 1000), (''writeTime'', Num 2000),
                   (''resourceTime'', Num 2000), (''remoteURL'', Str ''https://h/e.txt'')])
   \<and> map_option (\<lambda>r. cacheStorage (snd r) ''cache/easylist'')
       (getRemote 2 pfSample bgSample (\<lambda>friendly. staleNet) (\<lambda>i. 0) 5000
          ''easylist'' sampleEngine)
     = Some (Some (Text ''||a.com^''))"
proof -
  let ?entry = "[(''readTime'', Num 1000), (''writeTime'', Num 1000),
                 (''resourceTime'', Num 2000), (''remoteURL'', Str ''https://h/e.txt'')]"
  let ?src = "[(''content'', Str ''filters''), (''contentURL'', Arr [''https://h/e.txt'']),
               (''hasLocalURL'', Bool False), (''hasRemoteURL'', Bool True)]"
  have e: "map_of (assetCacheRegistry sampleEngine) ''easylist'' = Some ?entry"
    by (simp add: sampleEngine_def)
  have s: "map_of (assetSourceRegistry sampleEngine) ''easylist'' = Some ?src"
    by (simp add: sampleEngine_def)
  have us: "remoteContentURLs (\<lambda>i. 0) (remoteServerFriendly sampleEngine) ?src
      = [''https://h/e.txt'']"
    by (simp add: remoteContentURLs_def objGet_def)
  have ext: "reIsExternalPath ''https://h/e.txt''" by code_simp
  have st: "yieldsStale 2 pfSample bgSample staleNet ''easylist''
      (objGet ?src ''content'' = Str ''filters'') ?entry ''https://h/e.txt''"
    by code_simp
  have bl: "cacheStorage sampleEngine (''cache/'' @ ''easylist'') = Some (Text ''||a.com^'')"
    by (simp add: sampleEngine_def)
  have w: "objSet ?entry ''writeTime'' (objGet ?entry ''resourceTime'')
      = [(''readTime'', Num 1000), (''writeTime'', Num 2000),
         (''resourceTime'', Num 2000), (''remoteURL'', Str ''https://h/e.txt'')]"
    by (simp add: objSet_def objGet_def)
  have h: "map_of (assetCacheRegistry sampleEngine) ''easylist'' = Some ?entry
        \<and> map_of (assetSourceRegistry sampleEngine) ''easylist'' = Some ?src
        \<and> (\<forall>u \<in> set (remoteContentURLs (\<lambda>i. 0) (remoteServerFriendly sampleEngine) ?src).
             reIsExternalPath u \<longrightarrow>
             yieldsStale 2 pfSample bgSample staleNet
               ''easylist'' (objGet ?src ''content'' = Str ''filters'') ?entry u)
        \<and> (\<exists>u \<in> set (remoteContentURLs (\<lambda>i. 0) (remoteServerFriendly sampleEngine) ?src).
             reIsExternalPath u)"
    unfolding us using e s ext st by simp
  have "\<exists>report st'. getRemote 2 pfSample bgSample (\<lambda>friendly. staleNet) (\<lambda>i. 0) 5000
            ''easylist'' sampleEngine = Some (report, st')
           \<and> objGet report ''content'' = Str [] \<and> objGet report ''error'' = Undefined
           \<and> map_of (assetCacheRegistry st') ''easylist''
               = Some (objSet ?entry ''writeTime'' (objGet ?entry ''resourceTime''))
           \<and> objGet (objSet ?entry ''writeTime'' (objGet ?entry ''resourceTime'')) ''writeTime''
               = objGet ?entry ''resourceTime''
           \<and> objGet (objSet ?entry ''writeTime'' (objGet ?entry ''resourceTime'')) ''resourceTime''
               = objGet ?entry ''resourceTime''
           \<and> cacheStorage st' (''cache/'' @ ''easylist'')
               = cacheStorage sampleEngine (''cache/'' @ ''easylist'')"
    by (rule getRemote_stale_results_skipped [THEN conjunct2, rule_format,
          where ft = "\<lambda>friendly. staleNet" and assetDetails = ?src and entry = ?entry])
      (rule h)
  then obtain report st' where r:
    "getRemote 2 pfSample bgSample (\<lambda>friendly. staleNet) (\<lambda>i. 0) 5000 ''easylist'' sampleEngine
       = Some (report, st')"
    "map_of (assetCacheRegistry st') ''easylist''
       = Some (objSet ?entry ''writeTime'' (objGet ?entry ''resourceTime''))"
    "cacheStorage st' (''cache/'' @ ''easylist'')
       = cacheStorage sampleEngine (''cache/'' @ ''easylist'')"
    by blast
  have rep: "map_option fst (getRemote 2 pfSample bgSample (\<lambda>friendly. staleNet) (\<lambda>i. 0) 5000
       ''easylist'' sampleEngine)
     = Some [(''assetKey'', Str ''easylist''), (''content'', Str [])]"
    by code_simp
  show ?thesis using r rep bl w by simp
qed

subsection \<open>Update scheduler\<close>

text \<open>
  Claim C2 at two candidates that are both due, \<open>older\<close> written at 1000 and \<open>newer\<close>
  at 2000. The candidates come sorted by ascending write time, \<open>older\<close> first, both
  pass the test of the update period, and the step of \<open>updateNext\<close> refreshes \<open>newer\<close>:
  the last of the list, not the candidate with the smallest write time.
\<close>

theorem updateNext_refreshes_newest_first:
  "fst (getUpdateCandidates keenObservers 0 twoLists) = [''older'', ''newer'']
   \<and> getWriteTime ''older'' twoLists = 1000 \<and> getWriteTime ''newer'' twoLists = 2000
   \<and> getUpdateAfterTime ''older'' False twoLists = 604800000
   \<and> getUpdateAfterTime ''newer'' False twoLists = 604800000
   \<and> toHardUpdate 1000000000 [''older'', ''newer''] (snd (getUpdateCandidates keenObservers 0 twoLists))
       = [''older'', ''newer'']
   \<and> map_option updaterFetched
        (updateNext 2 pfSample bgSample (\<lambda>friendly. staleNet) (\<lambda>i. 0) keenObservers
           (\<lambda>json. None) 0 1000000000 twoLists)
       = Some [''newer'']"
  by code_simp


theorem updateNext_refreshes_newest_first_witness:
  "map_option updaterFetched
     (updateNext 2 pfSample bgSample (\<lambda>friendly. staleNet) (\<lambda>i. 0) keenObservers
        (\<lambda>json. None) 0 1000000000 twoLists)
     \<noteq> Some [''older'']
   \<and> getWriteTime ''older'' twoLists < getWriteTime ''newer'' twoLists"
proof -
  have a: "map_option updaterFetched
     (updateNext 2 pfSample bgSample (\<lambda>friendly. staleNet) (\<lambda>i. 0) keenObservers
        (\<lambda>json. None) 0 1000000000 twoLists) = Some [''newer'']"
    by (rule updateNext_refreshes_newest_first
          [THEN conjunct2, THEN conjunct2, THEN conjunct2, THEN conjunct2, THEN conjunct2,
           THEN conjunct2])
  have b: "getWriteTime ''older'' twoLists = 1000"
    by (rule updateNext_refreshes_newest_first [THEN conjunct2, THEN conjunct1])
  have c: "getWriteTime ''newer'' twoLists = 2000"
    by (rule updateNext_refreshes_newest_first [THEN conjunct2, THEN conjunct2, THEN conjunct1])
  show ?thesis unfolding a b c by simp
qed

text \<open>
  With the sort key and the order of the keys as modelled, that is for cache entries
  with numeric write times, the candidate that \<^verbatim>\<open>pop\<close> takes is one whose sort
  key is the largest among those due.
\<close>

lemma sorted_le_last: "sorted xs \<Longrightarrow> x \<in> set xs \<Longrightarrow> x \<le> last (xs :: rat list)"
  by (induction xs) auto

lemma last_hard_update_is_newest:
  assumes "k \<in> set (toHardUpdate now (sort_key (sortTime cacheDict) toUpdate) st)"
  shows "sortTime cacheDict k
     \<le> sortTime cacheDict (last (toHardUpdate now (sort_key (sortTime cacheDict) toUpdate) st))"
proof -
  let ?hard = "toHardUpdate now (sort_key (sortTime cacheDict) toUpdate) st"
  have "sorted (map (sortTime cacheDict) (sort_key (sortTime cacheDict) toUpdate))"
    by (rule sorted_sort_key)
  then have s: "sorted (map (sortTime cacheDict) ?hard)"
    unfolding toHardUpdate_def by (rule sorted_filter)
  have ne: "?hard \<noteq> []" using assms by auto
  have "sortTime cacheDict k \<in> set (map (sortTime cacheDict) ?hard)" using assms by simp
  then have "sortTime cacheDict k \<le> last (map (sortTime cacheDict) ?hard)"
    using s by (rule sorted_le_last [rotated])
  then show ?thesis using ne by (simp add: last_map)
qed

end
